theory Spec2Isabelle
  imports Complex_Main "HOL-Library.AList"
begin

text \<open>
  A model of the backend of mongo-manager: the extended-JSON codec of the
  document controller, the connection pool manager, and the interpreter of
  shell commands. The definitions of the three parts come first, each written
  from the JavaScript source; their properties follow. The MongoDB driver and
  the JavaScript runtime are outside the repository: what they answer is a
  parameter of each definition, and the instances named \<open>sample_...\<close> are used
  only to run the definitions on concrete inputs.
\<close>

section \<open>Extended-JSON codec (src/backend/src/controllers/documents.js)\<close>

text \<open>
  The codec works on two kinds of JavaScript value. A request body is a JSON tree
  (\<open>json\<close>); what the driver stores and returns is a JSON tree that may also hold
  driver-native values (\<open>doc\<close>): an ObjectId, identified by the 24-digit text its
  \<open>toString()\<close> prints, and a Date, identified by its time value in milliseconds
  (\<open>None\<close> is the Invalid Date). An object is the list of its own entries in
  \<open>Object.entries\<close> order, with pairwise distinct keys. An object of a request
  body may have an entry under \<open>__proto__\<close> (\<open>JSON.parse\<close> makes it an own
  property), and so may a document the driver returns. Both functions of the codec
  copy entries with \<open>target[key] = ...\<close> into a fresh \<open>{}\<close>; under the key
  \<open>__proto__\<close> that assignment reaches the prototype setter and creates no
  field. The prototype the setter may install is not part of \<open>doc\<close>, and the
  properties below are stated for objects without such an entry.

  A thrown JavaScript error is a value: its message, and the \<open>code\<close> and
  \<open>codeName\<close> fields driver errors carry.
\<close>

datatype error = JsError (message: string) (code: "int option") (codeName: "string option")

datatype json =
    JNull
  | JBool bool
  | JNum rat
  | JStr string
  | JArr "json list"
  | JObj "(string \<times> json) list"

datatype doc =
    DNull
  | DBool bool
  | DNum rat
  | DStr string
  | DArr "doc list"
  | DObj "(string \<times> doc) list"
  | DObjectId string
  | DDate "int option"

text \<open>
  The \<open>ObjectId\<close> and \<open>Date\<close> classes belong to the driver and to the runtime, not
  to this repository; the codec takes them as parameters.
  \<^item> \<open>ObjectId_new s\<close> is \<open>new ObjectId(s)\<close> on a string: \<open>Inl e\<close> when the
    constructor throws, \<open>Inr h\<close> with \<open>h\<close> the text of the new id otherwise.
    \<open>ObjectId.isValid(s)\<close> is "the constructor accepts \<open>s\<close>".
  \<^item> \<open>Date_new v\<close> is \<open>new Date(v)\<close>: \<open>Inl e\<close> when the constructor throws,
    otherwise the time value, \<open>None\<close> for an Invalid Date.
  \<^item> \<open>Date_toISOString t\<close> prints a valid time value; on the Invalid Date
    \<open>toISOString\<close> throws a RangeError.
\<close>

record bson_lib =
  ObjectId_new :: "string \<Rightarrow> error + string"
  Date_new :: "json \<Rightarrow> error + int option"
  Date_toISOString :: "int \<Rightarrow> string"

definition ObjectId_isValid :: "'a bson_lib_scheme \<Rightarrow> string \<Rightarrow> bool" where
  "ObjectId_isValid lib s = (case ObjectId_new lib s of Inl _ \<Rightarrow> False | Inr _ \<Rightarrow> True)"

definition RangeError :: error where
  "RangeError = JsError ''Invalid time value'' None None"

text \<open>JavaScript truthiness of a JSON value, as \<open>if (obj.$date)\<close> tests it.\<close>

fun truthy :: "json \<Rightarrow> bool" where
  "truthy JNull = False"
| "truthy (JBool b) = b"
| "truthy (JNum n) = (n \<noteq> 0)"
| "truthy (JStr s) = (s \<noteq> [])"
| "truthy (JArr _) = True"
| "truthy (JObj _) = True"

text \<open>\<open>obj.$oid && typeof obj.$oid === 'string'\<close>: the non-empty string under \<open>$oid\<close>.\<close>

definition oid_field :: "(string \<times> json) list \<Rightarrow> string option" where
  "oid_field es =
     (case map_of es ''$oid'' of
        Some (JStr s) \<Rightarrow> (if s \<noteq> [] then Some s else None)
      | _ \<Rightarrow> None)"

text \<open>\<open>obj.$date\<close> when it is truthy.\<close>

definition date_field :: "(string \<times> json) list \<Rightarrow> json option" where
  "date_field es =
     (case map_of es ''$date'' of
        Some v \<Rightarrow> (if truthy v then Some v else None)
      | None \<Rightarrow> None)"

text \<open>
  \<open>convertExtendedJson\<close>, lines 26-60. \<open>convertArray\<close> is \<open>obj.map(convertExtendedJson)\<close>
  and \<open>convertEntries\<close> is the \<open>for ... of Object.entries(obj)\<close> loop; the right-hand
  side of its assignment is \<open>convertField\<close>, and the assignment
  \<open>converted[key] = ...\<close> adds the field unless the key is \<open>__proto__\<close>. Both
  stop at the first element that throws. (The test of line 27 also returns
  \<open>undefined\<close> as it is; \<open>undefined\<close> is no JSON value.)
\<close>

fun convertExtendedJson :: "'a bson_lib_scheme \<Rightarrow> json \<Rightarrow> error + doc"
  and convertArray :: "'a bson_lib_scheme \<Rightarrow> json list \<Rightarrow> error + doc list"
  and convertField :: "'a bson_lib_scheme \<Rightarrow> string \<Rightarrow> json \<Rightarrow> error + doc"
  and convertEntries :: "'a bson_lib_scheme \<Rightarrow> (string \<times> json) list \<Rightarrow> error + (string \<times> doc) list"
where
  "convertExtendedJson lib JNull = Inr DNull"
| "convertExtendedJson lib (JArr xs) =
     (case convertArray lib xs of Inl e \<Rightarrow> Inl e | Inr ys \<Rightarrow> Inr (DArr ys))"
| "convertExtendedJson lib (JObj es) =
     (case oid_field es of
        Some s \<Rightarrow> (case ObjectId_new lib s of Inl e \<Rightarrow> Inl e | Inr h \<Rightarrow> Inr (DObjectId h))
      | None \<Rightarrow>
         (case date_field es of
            Some v \<Rightarrow> (case Date_new lib v of Inl e \<Rightarrow> Inl e | Inr t \<Rightarrow> Inr (DDate t))
          | None \<Rightarrow>
             (case convertEntries lib es of Inl e \<Rightarrow> Inl e | Inr fs \<Rightarrow> Inr (DObj fs))))"
| "convertExtendedJson lib (JBool b) = Inr (DBool b)"
| "convertExtendedJson lib (JNum n) = Inr (DNum n)"
| "convertExtendedJson lib (JStr s) = Inr (DStr s)"
| "convertArray lib [] = Inr []"
| "convertArray lib (x # xs) =
     (case convertExtendedJson lib x of
        Inl e \<Rightarrow> Inl e
      | Inr y \<Rightarrow> (case convertArray lib xs of Inl e \<Rightarrow> Inl e | Inr ys \<Rightarrow> Inr (y # ys)))"
| "convertField lib key value =
     (case value of
        JStr s \<Rightarrow>
          (if key = ''_id'' \<and> ObjectId_isValid lib s
           then (case ObjectId_new lib s of Inl e \<Rightarrow> Inl e | Inr h \<Rightarrow> Inr (DObjectId h))
           else convertExtendedJson lib value)
      | _ \<Rightarrow> convertExtendedJson lib value)"
| "convertEntries lib [] = Inr []"
| "convertEntries lib ((key, value) # es) =
     (case convertField lib key value of
        Inl e \<Rightarrow> Inl e
      | Inr y \<Rightarrow>
         (case convertEntries lib es of
            Inl e \<Rightarrow> Inl e
          | Inr fs \<Rightarrow> Inr (if key = ''__proto__'' then fs else (key, y) # fs)))"

declare convertField.simps [simp del]

text \<open>
  \<open>documentToJson\<close>, lines 67-93. The documents it receives here are the ones
  \<open>convertExtendedJson\<close> builds, so \<open>doc\<close> has no constructor for the driver's
  other classes. \<open>entriesToJson\<close> is the loop of lines 86-88; its assignment
  \<open>result[key] = ...\<close> adds the field unless the key is \<open>__proto__\<close>.
\<close>

fun documentToJson :: "'a bson_lib_scheme \<Rightarrow> doc \<Rightarrow> error + json"
  and documentsToJson :: "'a bson_lib_scheme \<Rightarrow> doc list \<Rightarrow> error + json list"
  and entriesToJson :: "'a bson_lib_scheme \<Rightarrow> (string \<times> doc) list \<Rightarrow> error + (string \<times> json) list"
where
  "documentToJson lib DNull = Inr JNull"
| "documentToJson lib (DArr xs) =
     (case documentsToJson lib xs of Inl e \<Rightarrow> Inl e | Inr ys \<Rightarrow> Inr (JArr ys))"
| "documentToJson lib (DObjectId h) = Inr (JObj [(''$oid'', JStr h)])"
| "documentToJson lib (DDate None) = Inl RangeError"
| "documentToJson lib (DDate (Some t)) = Inr (JObj [(''$date'', JStr (Date_toISOString lib t))])"
| "documentToJson lib (DObj es) =
     (case entriesToJson lib es of Inl e \<Rightarrow> Inl e | Inr fs \<Rightarrow> Inr (JObj fs))"
| "documentToJson lib (DBool b) = Inr (JBool b)"
| "documentToJson lib (DNum n) = Inr (JNum n)"
| "documentToJson lib (DStr s) = Inr (JStr s)"
| "documentsToJson lib [] = Inr []"
| "documentsToJson lib (x # xs) =
     (case documentToJson lib x of
        Inl e \<Rightarrow> Inl e
      | Inr y \<Rightarrow> (case documentsToJson lib xs of Inl e \<Rightarrow> Inl e | Inr ys \<Rightarrow> Inr (y # ys)))"
| "entriesToJson lib [] = Inr []"
| "entriesToJson lib ((key, value) # es) =
     (case documentToJson lib value of
        Inl e \<Rightarrow> Inl e
      | Inr y \<Rightarrow>
         (case entriesToJson lib es of
            Inl e \<Rightarrow> Inl e
          | Inr fs \<Rightarrow> Inr (if key = ''__proto__'' then fs else (key, y) # fs)))"

text \<open>Encoding after decoding: \<open>documentToJson(convertExtendedJson(x))\<close>.\<close>

definition encode_decode :: "'a bson_lib_scheme \<Rightarrow> json \<Rightarrow> error + json" where
  "encode_decode lib x =
     (case convertExtendedJson lib x of Inl e \<Rightarrow> Inl e | Inr d \<Rightarrow> documentToJson lib d)"

text \<open>
  The trees in canonical wrapper form. An object with a non-empty string under
  \<open>$oid\<close> is exactly \<open>{"$oid": h}\<close> with \<open>h\<close> the text the driver prints for that id;
  an object with a truthy \<open>$date\<close> is exactly \<open>{"$date": s}\<close> with \<open>s\<close> the ISO text
  of the date it denotes; any other object has canonical field values, no
  \<open>_id\<close> field holding a valid ObjectId string and no entry under \<open>__proto__\<close>.
  The wrappers \<open>$numberLong\<close>, \<open>$numberDecimal\<close> and \<open>$binary\<close> are objects of
  the last kind: neither function of documents.js treats them specially.
\<close>

fun canonical :: "'a bson_lib_scheme \<Rightarrow> json \<Rightarrow> bool"
  and canonicalArray :: "'a bson_lib_scheme \<Rightarrow> json list \<Rightarrow> bool"
  and canonicalEntries :: "'a bson_lib_scheme \<Rightarrow> (string \<times> json) list \<Rightarrow> bool"
where
  "canonical lib (JArr xs) = canonicalArray lib xs"
| "canonical lib (JObj es) =
     (case oid_field es of
        Some s \<Rightarrow> es = [(''$oid'', JStr s)] \<and> ObjectId_new lib s = Inr s
      | None \<Rightarrow>
         (case date_field es of
            Some v \<Rightarrow>
              (case Date_new lib v of
                 Inr (Some t) \<Rightarrow> es = [(''$date'', JStr (Date_toISOString lib t))]
               | _ \<Rightarrow> False)
          | None \<Rightarrow> canonicalEntries lib es))"
| "canonical lib JNull = True"
| "canonical lib (JBool b) = True"
| "canonical lib (JNum n) = True"
| "canonical lib (JStr s) = True"
| "canonicalArray lib [] = True"
| "canonicalArray lib (x # xs) = (canonical lib x \<and> canonicalArray lib xs)"
| "canonicalEntries lib [] = True"
| "canonicalEntries lib ((key, value) # es) =
     (key \<noteq> ''__proto__''
      \<and> (case value of JStr s \<Rightarrow> \<not> (key = ''_id'' \<and> ObjectId_isValid lib s) | _ \<Rightarrow> True)
      \<and> canonical lib value \<and> canonicalEntries lib es)"

text \<open>
  An instance of the library, for running the codec on concrete trees. Its ObjectId
  is the driver's: the constructor accepts a string of 24 hexadecimal digits and
  throws a BSONError on any other, and \<open>toString()\<close> prints the digits in lower
  case. Its Date reads a number as a time value (the integer part) and, of the
  strings, only the ISO text of the epoch.
\<close>

definition is_hex :: "char \<Rightarrow> bool" where
  "is_hex c = (c \<in> set ''0123456789abcdefABCDEF'')"

definition lower_hex :: "char \<Rightarrow> char" where
  "lower_hex c =
     (if c = CHR ''A'' then CHR ''a'' else if c = CHR ''B'' then CHR ''b''
      else if c = CHR ''C'' then CHR ''c'' else if c = CHR ''D'' then CHR ''d''
      else if c = CHR ''E'' then CHR ''e'' else if c = CHR ''F'' then CHR ''f'' else c)"

definition BSONError :: error where
  "BSONError = JsError ''input must be a 24 character hex string, 12 byte Uint8Array, or an integer'' None None"

definition epoch_iso :: string where
  "epoch_iso = ''1970-01-01T00:00:00.000Z''"

definition sample_lib :: bson_lib where
  "sample_lib =
     \<lparr> ObjectId_new = (\<lambda>s. if length s = 24 \<and> list_all is_hex s
                            then Inr (map lower_hex s) else Inl BSONError),
       Date_new = (\<lambda>v. case v of
                     JNum n \<Rightarrow> Inr (Some \<lfloor>n\<rfloor>)
                   | JStr s \<Rightarrow> Inr (if s = epoch_iso then Some 0 else None)
                   | _ \<Rightarrow> Inr None),
       Date_toISOString = (\<lambda>t. if t = 0 then epoch_iso else ''other'') \<rparr>"

section \<open>Connection pool manager (services/mongoClient.js)\<close>

text \<open>
  The class \<open>MongoClientManager\<close>; its source is found in
  src/backend/tests/sanitize.test.js from line 307 on, and the line numbers
  below are that file's.
\<close>

text \<open>
  A \<open>ConnectionRecord\<close> is read from the external store; an absent or empty field
  is the empty string (port: 0), which is what the truthiness tests of \<open>buildUri\<close>
  look at.
\<close>

record ConnectionRecord =
  conn_id :: string
  host :: string
  port :: nat
  username :: string
  password :: string
  authDatabase :: string
  uri :: string
  options :: "(string \<times> json) list"

text \<open>
  The driver is outside the repository. A \<open>MongoClient\<close> object is the number of
  its construction (0, 1, ...). What the driver answers is a parameter: whether the
  constructor throws on a URI, whether \<open>connect()\<close> and \<open>close()\<close> of a client
  reject, and what \<open>db(name).command(doc)\<close> returns. \<open>encodeURIComponent\<close> and
  the conversion of a value inside a template literal are the runtime's.
\<close>

record driver =
  encodeURIComponent :: "string \<Rightarrow> string"
  template :: "json option \<Rightarrow> string"
  MongoClient_new :: "string \<Rightarrow> (string \<times> json) list \<Rightarrow> error option"
  client_connect :: "nat \<Rightarrow> error option"
  client_close :: "nat \<Rightarrow> error option"
  db_command :: "nat \<Rightarrow> string \<Rightarrow> json \<Rightarrow> error + json"

text \<open>What the manager does to the outside, in order: the driver calls and the console.\<close>

datatype event =
    New nat string "(string \<times> json) list"
  | Connect nat
  | Close nat
  | Command nat string json
  | ConsoleError string string

record PooledClient =
  client :: nat
  lastUsed :: int

text \<open>
  The manager object: the \<open>clients\<close> Map as the list of its entries in insertion
  order, and \<open>idleTimeout\<close>; with it, the number of driver clients constructed so
  far and the trace of effects.
\<close>

record manager =
  clients :: "(string \<times> PooledClient) list"
  idleTimeout :: int
  instances :: nat
  trace :: "event list"

definition new_manager :: manager where
  "new_manager = \<lparr> clients = [], idleTimeout = 5 * 60 * 1000, instances = 0, trace = [] \<rparr>"

definition Error :: "string \<Rightarrow> error" where
  "Error msg = JsError msg None None"

fun string_of_nat :: "nat \<Rightarrow> string" where
  "string_of_nat n =
     (if n < 10 then [''0123456789'' ! n]
      else string_of_nat (n div 10) @ [''0123456789'' ! (n mod 10)])"

declare string_of_nat.simps [simp del]

definition buildUri :: "'a driver_scheme \<Rightarrow> 'b ConnectionRecord_scheme \<Rightarrow> string" where
  "buildUri drv connConfig =
     (if uri connConfig \<noteq> [] then uri connConfig
      else
        ''mongodb://''
        @ (if username connConfig \<noteq> [] \<and> password connConfig \<noteq> []
           then encodeURIComponent drv (username connConfig) @ '':''
                @ encodeURIComponent drv (password connConfig) @ ''@''
           else [])
        @ (if host connConfig \<noteq> [] then host connConfig else ''localhost'') @ '':''
        @ (if port connConfig \<noteq> 0 then string_of_nat (port connConfig) else ''27017'')
        @ (if authDatabase connConfig \<noteq> [] \<and> username connConfig \<noteq> []
           then ''/?authSource='' @ authDatabase connConfig
           else []))"

text \<open>
  \<open>closeConnection\<close>, lines 436-446, is an async function: it runs to
  \<open>await client.close()\<close> (\<open>closeConnection_begin\<close>: the entry is looked up and
  \<open>close()\<close> is called) and goes on when the driver has answered
  (\<open>closeConnection_resume\<close>: a rejection is caught and logged, the entry is
  deleted). \<open>closeConnection\<close> is the call awaited to its end with nothing running
  in between; its result is what the caller's \<open>await\<close> sees.
\<close>

definition closeConnection_begin :: "string \<Rightarrow> manager \<Rightarrow> nat option \<times> manager" where
  "closeConnection_begin connectionId s =
     (case map_of (clients s) connectionId of
        None \<Rightarrow> (None, s)
      | Some p \<Rightarrow> (Some (client p), s\<lparr>trace := trace s @ [Close (client p)]\<rparr>))"

definition closeConnection_resume :: "'a driver_scheme \<Rightarrow> string \<Rightarrow> nat \<Rightarrow> manager \<Rightarrow> manager" where
  "closeConnection_resume drv connectionId h s =
     (let s1 = (case client_close drv h of
                  None \<Rightarrow> s
                | Some e \<Rightarrow>
                    s\<lparr>trace := trace s @
                      [ConsoleError (''Error closing connection '' @ connectionId @ '':'') (message e)]\<rparr>)
      in s1\<lparr>clients := AList.delete connectionId (clients s1)\<rparr>)"

definition closeConnection :: "'a driver_scheme \<Rightarrow> string \<Rightarrow> manager \<Rightarrow> (error + unit) \<times> manager" where
  "closeConnection drv connectionId s =
     (case closeConnection_begin connectionId s of
        (None, s1) \<Rightarrow> (Inr (), s1)
      | (Some h, s1) \<Rightarrow> (Inr (), closeConnection_resume drv connectionId h s1))"

text \<open>
  \<open>getClient\<close>, lines 359-407. It suspends at \<open>await this.closeConnection(...)\<close>
  when the record is missing and a client is cached, and at
  \<open>await client.connect()\<close> when a new client is made. \<open>getClient_begin\<close> runs
  the call to its first suspension or to its end, \<open>getClient_resume\<close> runs it
  from the suspension to its end. \<open>connections\<close> is what \<open>loadConnections()\<close>
  returns at the call, \<open>now\<close> what \<open>Date.now()\<close> returns.
\<close>

datatype suspended = AwaitClose string nat | AwaitConnect string nat

definition clientOptions :: "manager \<Rightarrow> 'b ConnectionRecord_scheme \<Rightarrow> (string \<times> json) list" where
  "clientOptions s connConfig =
     fold (\<lambda>(k, v). AList.update k v) (options connConfig)
       [(''maxPoolSize'', JNum 10),
        (''minPoolSize'', JNum 1),
        (''maxIdleTimeMS'', JNum (of_int (idleTimeout s))),
        (''connectTimeoutMS'', JNum 10000),
        (''serverSelectionTimeoutMS'', JNum 10000)]"

definition getClient_begin ::
  "'a driver_scheme \<Rightarrow> 'b ConnectionRecord_scheme list \<Rightarrow> int \<Rightarrow> string \<Rightarrow> manager
    \<Rightarrow> ((error + nat) + suspended) \<times> manager" where
  "getClient_begin drv connections now connectionId s =
     (case find (\<lambda>c. conn_id c = connectionId) connections of
        None \<Rightarrow>
          (case closeConnection_begin connectionId s of
             (None, s1) \<Rightarrow> (Inl (Inl (Error (''Connection not found: '' @ connectionId))), s1)
           | (Some h, s1) \<Rightarrow> (Inr (AwaitClose connectionId h), s1))
      | Some connConfig \<Rightarrow>
          (case map_of (clients s) connectionId of
             Some cached \<Rightarrow>
               (Inl (Inr (client cached)),
                s\<lparr>clients := AList.update connectionId (cached\<lparr>lastUsed := now\<rparr>) (clients s)\<rparr>)
           | None \<Rightarrow>
               (let u = buildUri drv connConfig; opts = clientOptions s connConfig in
                case MongoClient_new drv u opts of
                  Some e \<Rightarrow> (Inl (Inl e), s)
                | None \<Rightarrow>
                    (Inr (AwaitConnect connectionId (instances s)),
                     s\<lparr>instances := Suc (instances s),
                       trace := trace s @ [New (instances s) u opts, Connect (instances s)]\<rparr>))))"

definition getClient_resume ::
  "'a driver_scheme \<Rightarrow> int \<Rightarrow> suspended \<Rightarrow> manager \<Rightarrow> (error + nat) \<times> manager" where
  "getClient_resume drv now w s =
     (case w of
        AwaitClose connectionId h \<Rightarrow>
          (Inl (Error (''Connection not found: '' @ connectionId)),
           closeConnection_resume drv connectionId h s)
      | AwaitConnect connectionId h \<Rightarrow>
          (case client_connect drv h of
             Some e \<Rightarrow> (Inl (Error (''Failed to connect to MongoDB server: '' @ message e)), s)
           | None \<Rightarrow>
               (Inr h,
                s\<lparr>clients := AList.update connectionId \<lparr>client = h, lastUsed = now\<rparr> (clients s)\<rparr>)))"

text \<open>One call awaited to its end, nothing running in between.\<close>

definition getClient ::
  "'a driver_scheme \<Rightarrow> 'b ConnectionRecord_scheme list \<Rightarrow> int \<Rightarrow> string \<Rightarrow> manager
    \<Rightarrow> (error + nat) \<times> manager" where
  "getClient drv connections now connectionId s =
     (case getClient_begin drv connections now connectionId s of
        (Inl r, s1) \<Rightarrow> (r, s1)
      | (Inr w, s1) \<Rightarrow> getClient_resume drv now w s1)"

text \<open>
  The idle sweep, lines 509-518. The timer's callback (\<open>sweep_tick\<close>) walks the
  Map and calls \<open>closeConnection\<close> on every idle entry without awaiting it:
  each call runs to its \<open>await client.close()\<close> inside the loop and is left
  suspended. The suspended calls go on when the driver has answered
  (\<open>sweep_settle\<close>, in the order the answers come).
\<close>

fun sweep_loop ::
  "int \<Rightarrow> (string \<times> PooledClient) list \<Rightarrow> manager \<Rightarrow> (string \<times> nat) list \<times> manager" where
  "sweep_loop now [] s = ([], s)"
| "sweep_loop now ((connectionId, data) # rest) s =
     (if now - lastUsed data > idleTimeout s
      then (case closeConnection_begin connectionId s of
              (None, s1) \<Rightarrow> sweep_loop now rest s1
            | (Some h, s1) \<Rightarrow>
                (case sweep_loop now rest s1 of (ws, s2) \<Rightarrow> ((connectionId, h) # ws, s2)))
      else sweep_loop now rest s)"

definition sweep_tick :: "int \<Rightarrow> manager \<Rightarrow> (string \<times> nat) list \<times> manager" where
  "sweep_tick now s = sweep_loop now (clients s) s"

definition sweep_settle :: "'a driver_scheme \<Rightarrow> (string \<times> nat) list \<Rightarrow> manager \<Rightarrow> manager" where
  "sweep_settle drv ws s = fold (\<lambda>(connectionId, h). closeConnection_resume drv connectionId h) ws s"

text \<open>
  The constructor, lines 316-323, starts the sweep: \<open>startCleanupInterval\<close> hands
  the callback to \<open>setInterval\<close> with a delay of 60000 ms. For a manager
  constructed at time \<open>created\<close>, \<open>tick_due created k\<close> is the time at which the
  runtime is due to run the callback for the \<open>k\<close>-th time (\<open>k\<close> = 0, 1, ...); it
  runs it then or, when the thread is busy, later.
\<close>

definition cleanupInterval :: int where
  "cleanupInterval = 60000"

definition tick_due :: "int \<Rightarrow> nat \<Rightarrow> int" where
  "tick_due created k = created + (int k + 1) * cleanupInterval"

text \<open>
  The manager is shared by all requests. Its async methods interleave at their
  suspensions only (one thread, cooperative). A schedule is a list of actions: a
  request calls \<open>getClient\<close>; a controller calls \<open>closeConnection\<close>; the timer
  ticks; or the suspended call at a position of the waiting list goes on. The
  results are what the \<open>getClient\<close> calls returned or threw, in the order they
  ended.
\<close>

datatype task = InGetClient suspended | InCloseConnection string nat

datatype action = Call string int | CloseCall string | Tick int | Resume nat int

record config =
  mgr :: manager
  waiting :: "task list"
  results :: "(error + nat) list"

definition step ::
  "'a driver_scheme \<Rightarrow> 'b ConnectionRecord_scheme list \<Rightarrow> action \<Rightarrow> config \<Rightarrow> config" where
  "step drv connections a c =
     (case a of
        Call connectionId now \<Rightarrow>
          (case getClient_begin drv connections now connectionId (mgr c) of
             (Inl r, s1) \<Rightarrow> c\<lparr>mgr := s1, results := results c @ [r]\<rparr>
           | (Inr w, s1) \<Rightarrow> c\<lparr>mgr := s1, waiting := waiting c @ [InGetClient w]\<rparr>)
      | CloseCall connectionId \<Rightarrow>
          (case closeConnection_begin connectionId (mgr c) of
             (None, s1) \<Rightarrow> c\<lparr>mgr := s1\<rparr>
           | (Some h, s1) \<Rightarrow>
               c\<lparr>mgr := s1, waiting := waiting c @ [InCloseConnection connectionId h]\<rparr>)
      | Tick now \<Rightarrow>
          (case sweep_tick now (mgr c) of
             (ws, s1) \<Rightarrow>
               c\<lparr>mgr := s1,
                 waiting := waiting c @ map (\<lambda>(connectionId, h). InCloseConnection connectionId h) ws\<rparr>)
      | Resume k now \<Rightarrow>
          (if k < length (waiting c)
           then (case waiting c ! k of
                   InGetClient w \<Rightarrow>
                     (case getClient_resume drv now w (mgr c) of
                        (r, s1) \<Rightarrow>
                          c\<lparr>mgr := s1,
                            waiting := take k (waiting c) @ drop (Suc k) (waiting c),
                            results := results c @ [r]\<rparr>)
                 | InCloseConnection connectionId h \<Rightarrow>
                     c\<lparr>mgr := closeConnection_resume drv connectionId h (mgr c),
                       waiting := take k (waiting c) @ drop (Suc k) (waiting c)\<rparr>)
           else c))"

definition run ::
  "'a driver_scheme \<Rightarrow> 'b ConnectionRecord_scheme list \<Rightarrow> action list \<Rightarrow> config \<Rightarrow> config" where
  "run drv connections as c = fold (step drv connections) as c"

definition start :: config where
  "start = \<lparr> mgr = new_manager, waiting = [], results = [] \<rparr>"

text \<open>
  \<open>testConnection\<close>, lines 462-504. The client is constructed before the
  \<open>try\<close>; everything after it is inside. \<open>testConnection_catch\<close> is the
  \<open>catch\<close> block: it calls \<open>close()\<close>, whose own rejection it drops, and
  words the message.
\<close>

record test_result =
  success :: bool
  version :: "json option"
  result_message :: string

definition field :: "json \<Rightarrow> string \<Rightarrow> json option" where
  "field v k = (case v of JObj es \<Rightarrow> map_of es k | _ \<Rightarrow> None)"

definition testConnection_catch ::
  "nat \<Rightarrow> error \<Rightarrow> manager \<Rightarrow> (error + test_result) \<times> manager" where
  "testConnection_catch h err s =
     (let s1 = s\<lparr>trace := trace s @ [Close h]\<rparr>;
          msg = (if code err = Some 13 \<or> codeName err = Some ''Unauthorized''
                 then ''Authentication failed. Please check username and password.''
                 else if code err = Some 18
                 then ''Authentication failed. Invalid credentials.''
                 else message err)
      in (Inr \<lparr> success = False, version = None,
                result_message = ''Connection failed: '' @ msg \<rparr>, s1))"

definition testConnection ::
  "'a driver_scheme \<Rightarrow> 'b ConnectionRecord_scheme \<Rightarrow> manager \<Rightarrow> (error + test_result) \<times> manager" where
  "testConnection drv connConfig s =
     (let u = buildUri drv connConfig;
          opts = [(''connectTimeoutMS'', JNum 5000), (''serverSelectionTimeoutMS'', JNum 5000)]
      in case MongoClient_new drv u opts of
           Some e \<Rightarrow> (Inl e, s)
         | None \<Rightarrow>
            (let h = instances s;
                 s1 = s\<lparr>instances := Suc h, trace := trace s @ [New h u opts, Connect h]\<rparr>
             in case client_connect drv h of
                  Some e \<Rightarrow> testConnection_catch h e s1
                | None \<Rightarrow>
                   (let s2 = s1\<lparr>trace := trace s1 @
                               [Command h ''admin'' (JObj [(''listDatabases'', JNum 1)])]\<rparr>
                    in case db_command drv h ''admin'' (JObj [(''listDatabases'', JNum 1)]) of
                         Inl e \<Rightarrow> testConnection_catch h e s2
                       | Inr _ \<Rightarrow>
                          (let s3 = s2\<lparr>trace := trace s2 @
                                      [Command h ''admin'' (JObj [(''buildInfo'', JNum 1)])]\<rparr>
                           in case db_command drv h ''admin'' (JObj [(''buildInfo'', JNum 1)]) of
                                Inl e \<Rightarrow> testConnection_catch h e s3
                              | Inr serverInfo \<Rightarrow>
                                 (let s4 = s3\<lparr>trace := trace s3 @ [Close h]\<rparr>
                                  in case client_close drv h of
                                       Some e \<Rightarrow> testConnection_catch h e s4
                                     | None \<Rightarrow>
                                        (Inr \<lparr> success = True,
                                                version = field serverInfo ''version'',
                                                result_message =
                                                  ''Successfully connected to MongoDB ''
                                                  @ template drv (field serverInfo ''version'') \<rparr>,
                                         s4))))))"

text \<open>
  An instance of the driver, for running the manager on concrete inputs: it
  refuses, as the driver does, a URI that does not start with
  \<open>mongodb://\<close> or \<open>mongodb+srv://\<close>; every connect, close and command succeeds.
\<close>

definition has_scheme :: "string \<Rightarrow> bool" where
  "has_scheme u = (take 10 u = ''mongodb://'' \<or> take 14 u = ''mongodb+srv://'')"

definition MongoParseError :: error where
  "MongoParseError =
     JsError ''Invalid scheme, expected connection string to start with mongodb:// or mongodb+srv://''
       None None"

definition sample_driver :: driver where
  "sample_driver =
     \<lparr> encodeURIComponent = (\<lambda>s. s),
       template = (\<lambda>v. case v of Some (JStr s) \<Rightarrow> s | _ \<Rightarrow> ''undefined''),
       MongoClient_new = (\<lambda>u opts. if has_scheme u then None else Some MongoParseError),
       client_connect = (\<lambda>h. None),
       client_close = (\<lambda>h. None),
       db_command = (\<lambda>h db c. Inr (JObj [(''version'', JStr ''7.0.0''), (''ok'', JNum 1)])) \<rparr>"

definition sample_record :: ConnectionRecord where
  "sample_record =
     \<lparr> conn_id = ''c1'', host = ''db.example'', port = 27018, username = [], password = [],
       authDatabase = ''admin'', uri = [], options = [] \<rparr>"

text \<open>
  Three more instances: a store with a second record, a manager that has one
  client cached, and a driver whose connect is refused with the driver's code 18.
\<close>

definition sample_records :: "ConnectionRecord list" where
  "sample_records = [sample_record, sample_record\<lparr>conn_id := ''c2'', host := ''db2.example''\<rparr>]"

definition cached_c1 :: manager where
  "cached_c1 = \<lparr> clients = [(''c1'', \<lparr>client = 0, lastUsed = 1\<rparr>)], idleTimeout = 300000,
                 instances = 1, trace = [] \<rparr>"

definition refusing_driver :: driver where
  "refusing_driver =
     sample_driver\<lparr> client_connect :=
       (\<lambda>h. Some (JsError ''Authentication failed.'' (Some 18) (Some ''AuthenticationFailed''))) \<rparr>"

section \<open>Command interpreter (executeShell, src/unnamed/part_006)\<close>

subsection \<open>The patterns of \<open>cmd.match\<close>\<close>

text \<open>
  Command texts are strings of the characters with codes below 256, which is
  what \<open>char\<close> holds. The character classes the patterns use, on these
  characters: \<open>\w\<close>, \<open>\d\<close>, \<open>\s\<close> (the five ASCII controls, the space and the
  no-break space), \<open>.\<close> (any character but a line terminator), \<open>[\s\S]\<close> (any
  character) and \<open>['"]\<close>.
\<close>

datatype cls = Word | Digit | Space | Dot | AnyChar | Quote

fun in_cls :: "cls \<Rightarrow> char \<Rightarrow> bool" where
  "in_cls Word c = (c \<in> set ''abcdefghijklmnopqrstuvwxyzABCDEFGHIJKLMNOPQRSTUVWXYZ0123456789_'')"
| "in_cls Digit c = (c \<in> set ''0123456789'')"
| "in_cls Space c = (c \<in> {CHR 0x09, CHR 0x0A, CHR 0x0B, CHR 0x0C, CHR 0x0D, CHR 0x20, CHR 0xA0})"
| "in_cls Dot c = (c \<notin> {CHR 0x0A, CHR 0x0D})"
| "in_cls AnyChar c = True"
| "in_cls Quote c = (c \<in> {CHR 0x27, CHR 0x22})"

text \<open>
  The patterns are built from literal text, one character of a class, a class
  repeated greedily (\<open>+\<close>, \<open>*\<close>) or lazily (\<open>*?\<close>), a numbered capture group, an
  optional group \<open>(?:...)?\<close>, alternation and concatenation.
\<close>

datatype re =
    Lit string
  | One cls
  | Plus cls
  | Star cls
  | Lazy cls
  | Grp nat re
  | Opt re
  | Alt re re
  | Cat re re

text \<open>
  Backtracking, as the list of the ways a pattern can match at the front of the
  text, in the order the matcher tries them: each way is the captures so far and
  the text left. A greedy repetition tries the longest run first, a lazy one the
  shortest; an optional group is tried before it is skipped; of two alternatives
  the left one is tried first.
\<close>

type_synonym captures = "(nat \<times> string) list"

fun ways :: "re \<Rightarrow> captures \<times> string \<Rightarrow> (captures \<times> string) list" where
  "ways (Lit l) (c, s) = (if take (length l) s = l then [(c, drop (length l) s)] else [])"
| "ways (One k) (c, s) = (case s of [] \<Rightarrow> [] | x # xs \<Rightarrow> if in_cls k x then [(c, xs)] else [])"
| "ways (Plus k) (c, s) =
     map (\<lambda>n. (c, drop n s)) (rev [1 ..< Suc (length (takeWhile (in_cls k) s))])"
| "ways (Star k) (c, s) =
     map (\<lambda>n. (c, drop n s)) (rev [0 ..< Suc (length (takeWhile (in_cls k) s))])"
| "ways (Lazy k) (c, s) =
     map (\<lambda>n. (c, drop n s)) [0 ..< Suc (length (takeWhile (in_cls k) s))]"
| "ways (Grp n r) (c, s) =
     map (\<lambda>(c', s'). ((n, take (length s - length s') s) # c', s')) (ways r (c, s))"
| "ways (Opt r) (c, s) = ways r (c, s) @ [(c, s)]"
| "ways (Alt a b) (c, s) = ways a (c, s) @ ways b (c, s)"
| "ways (Cat a b) (c, s) = concat (map (ways b) (ways a (c, s)))"

text \<open>
  \<open>cmd.match(/^...$/)\<close>: the first way that uses up the whole text, or \<open>None\<close>
  (\<open>null\<close>). \<open>grp m n\<close> is the text of group \<open>n\<close>, \<open>None\<close> when the group took no
  part (\<open>undefined\<close>).
\<close>

definition match_re :: "re \<Rightarrow> string \<Rightarrow> captures option" where
  "match_re r s =
     (case filter (\<lambda>(c, rest). rest = []) (ways r ([], s)) of
        [] \<Rightarrow> None
      | (c, rest) # _ \<Rightarrow> Some c)"

definition grp :: "captures \<Rightarrow> nat \<Rightarrow> string option" where
  "grp m n = map_of m n"

definition grp1 :: "captures \<Rightarrow> nat \<Rightarrow> string" where
  "grp1 m n = (case map_of m n of Some s \<Rightarrow> s | None \<Rightarrow> [])"

fun cat :: "re list \<Rightarrow> re" where
  "cat [] = Lit []"
| "cat [r] = r"
| "cat (r # rs) = Cat r (cat rs)"

definition method_re :: "string \<Rightarrow> re list \<Rightarrow> re" where
  "method_re name args = cat ([Lit ''db.'', Grp 1 (Plus Word), Lit (''.'' @ name @ ''('')] @ args @ [Lit '')''])"

text \<open>The optional clauses after \<open>find(...)\<close>, and the pattern of line 184.\<close>

definition findTail :: re where
  "findTail =
     cat [Opt (cat [Lit ''.limit('', Grp 3 (Plus Digit), Lit '')'']),
          Opt (cat [Lit ''.skip('', Grp 4 (Plus Digit), Lit '')'']),
          Opt (cat [Lit ''.sort('', Grp 5 (Lazy Dot), Lit '')''])]"

definition findMatch :: re where
  "findMatch =
     cat [Lit ''db.'', Grp 1 (Plus Word), Lit ''.find('', Grp 2 (Lazy Dot), Lit '')'', findTail]"

definition findOneMatch :: re where
  "findOneMatch = method_re ''findOne'' [Grp 2 (Lazy Dot)]"

definition countMatch :: re where
  "countMatch = method_re ''countDocuments'' [Grp 2 (Lazy Dot)]"

definition countOldMatch :: re where
  "countOldMatch = method_re ''count'' [Grp 2 (Lazy Dot)]"

definition distinctMatch :: re where
  "distinctMatch = method_re ''distinct'' [One Quote, Grp 2 (Plus Word), One Quote]"

definition indexMatch :: re where
  "indexMatch = method_re ''getIndexes'' []"

definition collStatsMatch :: re where
  "collStatsMatch = method_re ''stats'' []"

definition insertOneMatch :: re where
  "insertOneMatch = method_re ''insertOne'' [Grp 2 (Star AnyChar)]"

definition insertMatch :: re where
  "insertMatch = method_re ''insert'' [Grp 2 (Star AnyChar)]"

definition insertManyMatch :: re where
  "insertManyMatch = method_re ''insertMany'' [Grp 2 (Star AnyChar)]"

definition updateOneMatch :: re where
  "updateOneMatch = method_re ''updateOne'' [Grp 2 (Star AnyChar), Lit '','', Grp 3 (Star AnyChar)]"

definition updateManyMatch :: re where
  "updateManyMatch = method_re ''updateMany'' [Grp 2 (Star AnyChar), Lit '','', Grp 3 (Star AnyChar)]"

definition deleteOneMatch :: re where
  "deleteOneMatch = method_re ''deleteOne'' [Grp 2 (Star AnyChar)]"

definition deleteManyMatch :: re where
  "deleteManyMatch =
     cat [Lit ''db.'', Grp 1 (Plus Word), Lit ''.'',
          Grp 2 (Alt (Lit ''deleteMany'') (Lit ''remove'')), Lit ''('',
          Grp 3 (Star AnyChar), Lit '')'']"

definition dropCollMatch :: re where
  "dropCollMatch = method_re ''drop'' []"

definition aggregateMatch :: re where
  "aggregateMatch = method_re ''aggregate'' [Grp 2 (Star AnyChar)]"

definition createIndexMatch :: re where
  "createIndexMatch = method_re ''createIndex'' [Grp 2 (Star AnyChar)]"

definition dropIndexMatch :: re where
  "dropIndexMatch = method_re ''dropIndex'' [One Quote, Grp 2 (Plus Dot), One Quote]"

definition useDbMatch :: re where
  "useDbMatch = cat [Lit ''use'', Plus Space, Grp 1 (Plus Word)]"

definition createCollMatch :: re where
  "createCollMatch = cat [Lit ''db.createCollection('', One Quote, Grp 1 (Plus Word), One Quote, Lit '')'']"

text \<open>
  \<open>String.prototype.trim\<close> strips the characters of \<open>\s\<close> from both ends.
  \<open>parseInt\<close> is applied to the runs of digits the patterns capture:
  \<open>decimal\<close> is the number the digits write, and \<open>parseInt\<close> returns it as a
  JavaScript number, which is that number as long as it is at most \<open>2^53\<close>. On a
  longer run the runtime returns a rounded number or \<open>Infinity\<close>; which one is
  not modelled (\<open>None\<close>).
\<close>

definition trim :: "string \<Rightarrow> string" where
  "trim s = rev (dropWhile (in_cls Space) (rev (dropWhile (in_cls Space) s)))"

definition decimal :: "string \<Rightarrow> nat" where
  "decimal ds = foldl (\<lambda>n c. 10 * n + (of_char c - 48)) 0 ds"

definition parseInt :: "string \<Rightarrow> nat option" where
  "parseInt ds = (if decimal ds \<le> 2 ^ 53 then Some (decimal ds) else None)"

subsection \<open>Recognising the command\<close>

text \<open>
  What \<open>executeShell\<close> finds the command to be, with the texts it captured. The
  tests are made in the order of the source, lines 172-478, and the first that
  succeeds decides.
\<close>

datatype shape =
    GetCollectionNames
  | DbStats
  | FindS string string "string option" "string option" "string option"
  | FindOneS string string
  | CountDocumentsS string string
  | CountS string string
  | DistinctS string string
  | GetIndexesS string
  | CollStatsS string
  | InsertOneS string string
  | InsertS string string
  | InsertManyS string string
  | UpdateOneS string string string
  | UpdateManyS string string string
  | DeleteOneS string string
  | DeleteManyS string string
  | DropS string
  | AggregateS string string
  | CreateIndexS string string
  | DropIndexS string string
  | UseS string
  | CreateCollectionS string
  | DropDatabaseS
  | ShowDbs
  | ShowCollections
  | RawS string
  | Unknown

definition recognize :: "string \<Rightarrow> shape" where
  "recognize cmd =
    (if cmd = ''db.getCollectionNames()'' then GetCollectionNames
     else if cmd = ''db.stats()'' then DbStats
     else case match_re findMatch cmd of
       Some m \<Rightarrow> FindS (grp1 m 1) (grp1 m 2) (grp m 3) (grp m 4) (grp m 5)
     | None \<Rightarrow> (case match_re findOneMatch cmd of
       Some m \<Rightarrow> FindOneS (grp1 m 1) (grp1 m 2)
     | None \<Rightarrow> (case match_re countMatch cmd of
       Some m \<Rightarrow> CountDocumentsS (grp1 m 1) (grp1 m 2)
     | None \<Rightarrow> (case match_re countOldMatch cmd of
       Some m \<Rightarrow> CountS (grp1 m 1) (grp1 m 2)
     | None \<Rightarrow> (case match_re distinctMatch cmd of
       Some m \<Rightarrow> DistinctS (grp1 m 1) (grp1 m 2)
     | None \<Rightarrow> (case match_re indexMatch cmd of
       Some m \<Rightarrow> GetIndexesS (grp1 m 1)
     | None \<Rightarrow> (case match_re collStatsMatch cmd of
       Some m \<Rightarrow> CollStatsS (grp1 m 1)
     | None \<Rightarrow> (case match_re insertOneMatch cmd of
       Some m \<Rightarrow> InsertOneS (grp1 m 1) (grp1 m 2)
     | None \<Rightarrow> (case match_re insertMatch cmd of
       Some m \<Rightarrow> InsertS (grp1 m 1) (grp1 m 2)
     | None \<Rightarrow> (case match_re insertManyMatch cmd of
       Some m \<Rightarrow> InsertManyS (grp1 m 1) (grp1 m 2)
     | None \<Rightarrow> (case match_re updateOneMatch cmd of
       Some m \<Rightarrow> UpdateOneS (grp1 m 1) (grp1 m 2) (grp1 m 3)
     | None \<Rightarrow> (case match_re updateManyMatch cmd of
       Some m \<Rightarrow> UpdateManyS (grp1 m 1) (grp1 m 2) (grp1 m 3)
     | None \<Rightarrow> (case match_re deleteOneMatch cmd of
       Some m \<Rightarrow> DeleteOneS (grp1 m 1) (grp1 m 2)
     | None \<Rightarrow> (case match_re deleteManyMatch cmd of
       Some m \<Rightarrow> DeleteManyS (grp1 m 1) (grp1 m 3)
     | None \<Rightarrow> (case match_re dropCollMatch cmd of
       Some m \<Rightarrow> DropS (grp1 m 1)
     | None \<Rightarrow> (case match_re aggregateMatch cmd of
       Some m \<Rightarrow> AggregateS (grp1 m 1) (grp1 m 2)
     | None \<Rightarrow> (case match_re createIndexMatch cmd of
       Some m \<Rightarrow> CreateIndexS (grp1 m 1) (grp1 m 2)
     | None \<Rightarrow> (case match_re dropIndexMatch cmd of
       Some m \<Rightarrow> DropIndexS (grp1 m 1) (grp1 m 2)
     | None \<Rightarrow> (case match_re useDbMatch cmd of
       Some m \<Rightarrow> UseS (grp1 m 1)
     | None \<Rightarrow> (case match_re createCollMatch cmd of
       Some m \<Rightarrow> CreateCollectionS (grp1 m 1)
     | None \<Rightarrow>
       (if cmd = ''db.dropDatabase()'' then DropDatabaseS
        else if cmd = ''show dbs'' \<or> cmd = ''show databases'' then ShowDbs
        else if cmd = ''show collections'' then ShowCollections
        else if take 1 cmd = ''{'' then RawS cmd
        else Unknown)))))))))))))))))))))"

subsection \<open>Executing it\<close>

text \<open>
  The calls the interpreter makes on the driver's \<open>Db\<close> and \<open>Collection\<close>
  objects, other than \<open>find\<close>.
\<close>

datatype op =
    ListCollections
  | Stats
  | FindOneOp string json
  | CountDocumentsOp string json
  | DistinctOp string string
  | IndexesOp string
  | CommandOp json
  | InsertOneOp string json
  | InsertManyOp string json
  | UpdateOneOp string json json
  | UpdateManyOp string json json
  | DeleteOneOp string json
  | DeleteManyOp string json
  | DropOp string
  | AggregateOp string json
  | CreateIndexOp string json
  | DropIndexOp string string
  | CreateCollectionOp string
  | DropDatabaseOp

text \<open>
  What is outside the interpreter, as parameters: whether
  \<open>mongoClientManager.getClient\<close> throws; \<open>JSON.parse\<close> (\<open>Inl\<close>: the SyntaxError
  it throws); whether \<open>cursor.sort(spec)\<close> throws on a sort document; the
  documents of a collection of a database that match a filter, in the order of
  the sort; what \<open>toArray\<close> answers for a cursor whose skip or limit is a
  number above \<open>2^53\<close>; and what any other driver call on a database returns.
\<close>

record shell_env =
  getClient_throws :: "error option"
  JSON_parse :: "string \<Rightarrow> error + json"
  cursor_sort :: "json \<Rightarrow> error option"
  find_docs :: "string \<Rightarrow> string \<Rightarrow> json \<Rightarrow> json option \<Rightarrow> error + json list"
  toArray_beyond :: "string \<Rightarrow> string \<Rightarrow> json \<Rightarrow> json option \<Rightarrow> error + json list"
  driver_call :: "string \<Rightarrow> op \<Rightarrow> error + json"

text \<open>
  A \<open>FindCursor\<close> as the interpreter builds it; its skip and its limit are
  JavaScript numbers, \<open>None\<close> being a number \<open>parseInt\<close> made of a run of digits
  above \<open>2^53\<close>. \<open>toArray\<close> is the driver's, modelled from its documentation: the
  matching documents in sort order, the first \<open>skip\<close> of them left out, then at
  most \<open>limit\<close> of them, where a limit of 0 is no limit.
\<close>

record cursor =
  cur_db :: string
  cur_coll :: string
  cur_filter :: json
  cur_sort :: "json option"
  cur_skip :: "nat option"
  cur_limit :: "nat option"

definition toArray :: "'a shell_env_scheme \<Rightarrow> cursor \<Rightarrow> error + json list" where
  "toArray env cur =
     (case (cur_skip cur, cur_limit cur) of
        (Some sk, Some l) \<Rightarrow>
          (case find_docs env (cur_db cur) (cur_coll cur) (cur_filter cur) (cur_sort cur) of
             Inl e \<Rightarrow> Inl e
           | Inr ds \<Rightarrow> Inr (if l = 0 then drop sk ds else take l (drop sk ds)))
      | _ \<Rightarrow> toArray_beyond env (cur_db cur) (cur_coll cur) (cur_filter cur) (cur_sort cur))"

text \<open>
  The response: \<open>res.status(n).json(v)\<close>. A value that is \<open>undefined\<close> is left
  out of an object and is \<open>null\<close> elsewhere.
\<close>

record response =
  status :: nat
  body :: json

definition json_response :: "json \<Rightarrow> response" where
  "json_response v = \<lparr> status = 200, body = v \<rparr>"

definition error_response :: "string \<Rightarrow> response" where
  "error_response msg = json_response (JObj [(''error'', JStr msg)])"

definition pick :: "string list \<Rightarrow> json \<Rightarrow> json" where
  "pick ks r = JObj (concat (map (\<lambda>k. case field r k of Some v \<Rightarrow> [(k, v)] | None \<Rightarrow> []) ks))"

definition or_null :: "json option \<Rightarrow> json" where
  "or_null v = (case v of Some x \<Rightarrow> x | None \<Rightarrow> JNull)"

definition names :: "json \<Rightarrow> json" where
  "names r = (case r of JArr cs \<Rightarrow> JArr (map (\<lambda>c. or_null (field c ''name'')) cs) | _ \<Rightarrow> r)"

text \<open>
  The lenient filter of the read shapes, lines 189-196 (and 223-228, 240-245,
  257-262): a text that is blank or does not parse gives the empty filter.
\<close>

definition lenient_filter :: "'a shell_env_scheme \<Rightarrow> string \<Rightarrow> json" where
  "lenient_filter env filterStr =
     (if filterStr \<noteq> [] \<and> trim filterStr \<noteq> []
      then (case JSON_parse env filterStr of Inl e \<Rightarrow> JObj [] | Inr v \<Rightarrow> v)
      else JObj [])"

text \<open>The cursor of the find shape, lines 198-211.\<close>

definition find_cursor ::
  "'a shell_env_scheme \<Rightarrow> string \<Rightarrow> string \<Rightarrow> string \<Rightarrow> string option \<Rightarrow> string option
    \<Rightarrow> string option \<Rightarrow> cursor" where
  "find_cursor env db collName filterStr limitStr skipStr sortStr =
     \<lparr> cur_db = db,
       cur_coll = collName,
       cur_filter = lenient_filter env filterStr,
       cur_sort =
         (case sortStr of
            None \<Rightarrow> None
          | Some t \<Rightarrow>
              (if t = [] then None
               else (case JSON_parse env t of
                       Inl e \<Rightarrow> None
                     | Inr spec \<Rightarrow> (case cursor_sort env spec of Some e \<Rightarrow> None | None \<Rightarrow> Some spec)))),
       cur_skip = (case skipStr of None \<Rightarrow> Some 0 | Some t \<Rightarrow> parseInt t),
       cur_limit = (case limitStr of None \<Rightarrow> Some 20 | Some t \<Rightarrow> parseInt t) \<rparr>"

text \<open>
  A driver call outside an inner \<open>try\<close>: its error reaches the \<open>catch\<close> of line
  492. A driver call made after parsing inside an inner \<open>try\<close>: the error of
  either is answered with the message of that \<open>catch\<close>.
\<close>

definition call :: "'a shell_env_scheme \<Rightarrow> string \<Rightarrow> op \<Rightarrow> (json \<Rightarrow> json) \<Rightarrow> response" where
  "call env db c k =
     (case driver_call env db c of
        Inl e \<Rightarrow> error_response (message e)
      | Inr r \<Rightarrow> json_response (k r))"

definition try_call ::
  "'a shell_env_scheme \<Rightarrow> string \<Rightarrow> string \<Rightarrow> error + op \<Rightarrow> (json \<Rightarrow> json) \<Rightarrow> response" where
  "try_call env db prefix c k =
     (case c of
        Inl e \<Rightarrow> error_response (prefix @ message e)
      | Inr c' \<Rightarrow>
          (case driver_call env db c' of
             Inl e \<Rightarrow> error_response (prefix @ message e)
           | Inr r \<Rightarrow> json_response (k r)))"

definition parse1 :: "'a shell_env_scheme \<Rightarrow> string \<Rightarrow> (json \<Rightarrow> op) \<Rightarrow> error + op" where
  "parse1 env t mk = (case JSON_parse env t of Inl e \<Rightarrow> Inl e | Inr v \<Rightarrow> Inr (mk v))"

definition parse2 ::
  "'a shell_env_scheme \<Rightarrow> string \<Rightarrow> string \<Rightarrow> (json \<Rightarrow> json \<Rightarrow> op) \<Rightarrow> error + op" where
  "parse2 env t u mk =
     (case JSON_parse env t of
        Inl e \<Rightarrow> Inl e
      | Inr v \<Rightarrow> (case JSON_parse env u of Inl e \<Rightarrow> Inl e | Inr w \<Rightarrow> Inr (mk v w)))"

definition is_array :: "json \<Rightarrow> bool" where
  "is_array v = (case v of JArr _ \<Rightarrow> True | _ \<Rightarrow> False)"

definition unknown_command :: string where
  "unknown_command = ''Unknown command. Supported commands: db.collection.find(), db.collection.findOne(), db.collection.insert(), db.collection.insertOne(), db.collection.insertMany(), db.collection.updateOne(), db.collection.updateMany(), db.collection.deleteOne(), db.collection.deleteMany(), db.collection.aggregate(), db.collection.countDocuments(), db.collection.distinct(), db.collection.getIndexes(), db.collection.createIndex(), db.collection.dropIndex(), db.collection.drop(), db.collection.stats(), db.getCollectionNames(), db.stats(), db.createCollection(), db.dropDatabase(), show dbs, show collections, use <database>, or JSON commands like { ping: 1 }''"

fun perform :: "'a shell_env_scheme \<Rightarrow> string \<Rightarrow> shape \<Rightarrow> response" where
  "perform env db GetCollectionNames = call env db ListCollections names"
| "perform env db DbStats = call env db Stats (\<lambda>r. r)"
| "perform env db (FindS collName filterStr limitStr skipStr sortStr) =
     (case toArray env (find_cursor env db collName filterStr limitStr skipStr sortStr) of
        Inl e \<Rightarrow> error_response (message e)
      | Inr docs \<Rightarrow> json_response (JArr docs))"
| "perform env db (FindOneS collName filterStr) =
     call env db (FindOneOp collName (lenient_filter env filterStr)) (\<lambda>r. r)"
| "perform env db (CountDocumentsS collName filterStr) =
     call env db (CountDocumentsOp collName (lenient_filter env filterStr))
       (\<lambda>r. JObj [(''count'', r)])"
| "perform env db (CountS collName filterStr) =
     call env db (CountDocumentsOp collName (lenient_filter env filterStr))
       (\<lambda>r. JObj [(''count'', r)])"
| "perform env db (DistinctS collName fld) = call env db (DistinctOp collName fld) (\<lambda>r. r)"
| "perform env db (GetIndexesS collName) = call env db (IndexesOp collName) (\<lambda>r. r)"
| "perform env db (CollStatsS collName) =
     call env db (CommandOp (JObj [(''collStats'', JStr collName)])) (\<lambda>r. r)"
| "perform env db (InsertOneS collName docStr) =
     try_call env db ''Invalid document JSON: '' (parse1 env docStr (InsertOneOp collName))
       (pick [''acknowledged'', ''insertedId''])"
| "perform env db (InsertS collName docStr) =
     try_call env db ''Invalid document JSON: ''
       (parse1 env docStr (\<lambda>doc. if is_array doc then InsertManyOp collName doc
                                  else InsertOneOp collName doc))
       (\<lambda>r. case JSON_parse env docStr of
               Inr doc \<Rightarrow>
                 (if is_array doc then pick [''acknowledged'', ''insertedCount'', ''insertedIds''] r
                  else pick [''acknowledged'', ''insertedId''] r)
             | Inl e \<Rightarrow> r)"
| "perform env db (InsertManyS collName docsStr) =
     try_call env db ''Invalid documents JSON: '' (parse1 env docsStr (InsertManyOp collName))
       (pick [''acknowledged'', ''insertedCount'', ''insertedIds''])"
| "perform env db (UpdateOneS collName filterStr updateStr) =
     try_call env db ''Invalid JSON: ''
       (parse2 env (trim filterStr) (trim updateStr) (UpdateOneOp collName))
       (pick [''acknowledged'', ''matchedCount'', ''modifiedCount''])"
| "perform env db (UpdateManyS collName filterStr updateStr) =
     try_call env db ''Invalid JSON: ''
       (parse2 env (trim filterStr) (trim updateStr) (UpdateManyOp collName))
       (pick [''acknowledged'', ''matchedCount'', ''modifiedCount''])"
| "perform env db (DeleteOneS collName filterStr) =
     try_call env db ''Invalid filter JSON: '' (parse1 env (trim filterStr) (DeleteOneOp collName))
       (pick [''acknowledged'', ''deletedCount''])"
| "perform env db (DeleteManyS collName filterStr) =
     try_call env db ''Invalid filter JSON: '' (parse1 env (trim filterStr) (DeleteManyOp collName))
       (pick [''acknowledged'', ''deletedCount''])"
| "perform env db (DropS collName) = call env db (DropOp collName) (\<lambda>r. JObj [(''dropped'', r)])"
| "perform env db (AggregateS collName pipelineStr) =
     try_call env db ''Invalid pipeline JSON: '' (parse1 env pipelineStr (AggregateOp collName))
       (\<lambda>r. r)"
| "perform env db (CreateIndexS collName keysStr) =
     try_call env db ''Invalid keys JSON: '' (parse1 env keysStr (CreateIndexOp collName))
       (\<lambda>r. JObj [(''indexName'', r)])"
| "perform env db (DropIndexS collName indexName) =
     call env db (DropIndexOp collName indexName) (\<lambda>r. r)"
| "perform env db (UseS dbName) =
     json_response (JObj [(''message'', JStr (''switched to db '' @ dbName)),
                          (''database'', JStr dbName)])"
| "perform env db (CreateCollectionS collName) =
     call env db (CreateCollectionOp collName) (\<lambda>r. JObj [(''created'', JStr collName)])"
| "perform env db DropDatabaseS = call env db DropDatabaseOp (\<lambda>r. JObj [(''dropped'', JBool True)])"
| "perform env db ShowDbs =
     call env ''admin'' (CommandOp (JObj [(''listDatabases'', JNum 1)]))
       (\<lambda>r. or_null (field r ''databases''))"
| "perform env db ShowCollections = call env db ListCollections names"
| "perform env db (RawS cmd) =
     try_call env db ''Invalid JSON command: '' (parse1 env cmd CommandOp) (\<lambda>r. r)"
| "perform env db Unknown = error_response unknown_command"

text \<open>
  \<open>executeShell\<close>, lines 156-495: \<open>database\<close> and \<open>command\<close> are the fields of the
  request body, an absent one being the empty string.
\<close>

definition executeShell :: "'a shell_env_scheme \<Rightarrow> string \<Rightarrow> string \<Rightarrow> response" where
  "executeShell env database command =
     (if command = [] then \<lparr> status = 400, body = JObj [(''error'', JStr ''Command is required'')] \<rparr>
      else case getClient_throws env of
             Some e \<Rightarrow> error_response (message e)
           | None \<Rightarrow>
               perform env (if database \<noteq> [] then database else ''admin'')
                 (recognize (trim command)))"

text \<open>
  An instance of the environment, for running the interpreter on concrete
  commands. Its \<open>JSON.parse\<close> reads the text of the empty object and throws on
  every other text, with the message the runtime has for \<open>{age: 1}\<close> (a key
  without quotes). The collection \<open>users\<close> of every database holds 25 documents,
  all of which match every filter.
\<close>

definition SyntaxError :: error where
  "SyntaxError = JsError ''Unexpected token a in JSON at position 1'' None None"

definition sample_env :: shell_env where
  "sample_env =
     \<lparr> getClient_throws = None,
       JSON_parse = (\<lambda>t. if t = ''{}'' then Inr (JObj []) else Inl SyntaxError),
       cursor_sort = (\<lambda>spec. None),
       find_docs = (\<lambda>db coll flt srt. Inr (map (\<lambda>n. JObj [(''n'', JNum (of_nat n))]) [0 ..< 25])),
       toArray_beyond = (\<lambda>db coll flt srt. Inl (JsError ''limit requires an integer'' None None)),
       driver_call = (\<lambda>db c. Inr (JObj [(''acknowledged'', JBool True)])) \<rparr>"

section \<open>Properties of the extended-JSON codec\<close>

lemma oid_field_wrapper: "oid_field [(''$oid'', JStr s)] = (if s \<noteq> [] then Some s else None)"
  by (simp add: oid_field_def)

lemma convert_invalid_oid:
  "ObjectId_new lib s = Inl e \<Longrightarrow> s \<noteq> [] \<Longrightarrow>
   convertExtendedJson lib (JObj [(''$oid'', JStr s)]) = Inl e"
  by (simp add: oid_field_wrapper)

lemma sample_ObjectId_new_xyz: "ObjectId_new sample_lib ''xyz'' = Inl BSONError"
  by (simp add: sample_lib_def)

text \<open>
  C2. Decoding is not total: on the wrapper \<open>{"$oid": "xyz"}\<close>, whose string is no
  valid ObjectId, line 38 calls the constructor without asking \<open>ObjectId.isValid\<close>
  and the constructor's BSONError leaves \<open>convertExtendedJson\<close>; the wrapper is not
  passed through.
\<close>

theorem convertExtendedJson_invalid_oid_throws:
  "convertExtendedJson sample_lib (JObj [(''$oid'', JStr ''xyz'')]) = Inl BSONError"
  using convert_invalid_oid[OF sample_ObjectId_new_xyz] by simp

lemma roundtrip_if_canonical:
  shows "canonical lib x \<Longrightarrow>
           \<exists>d. convertExtendedJson lib x = Inr d \<and> documentToJson lib d = Inr x"
    and "canonicalArray lib xs \<Longrightarrow>
           \<exists>ds. convertArray lib xs = Inr ds \<and> documentsToJson lib ds = Inr xs"
    and "canonical lib v \<Longrightarrow>
         (case v of JStr s \<Rightarrow> \<not> (key = ''_id'' \<and> ObjectId_isValid lib s) | _ \<Rightarrow> True) \<Longrightarrow>
           \<exists>d. convertField lib key v = Inr d \<and> documentToJson lib d = Inr v"
    and "canonicalEntries lib es \<Longrightarrow>
           \<exists>fs. convertEntries lib es = Inr fs \<and> entriesToJson lib fs = Inr es"
proof (induction lib x and lib xs and lib key v and lib es
    rule: convertExtendedJson_convertArray_convertField_convertEntries.induct)
  case (3 lib es)
  then show ?case
    by (auto split: option.splits sum.splits)
next
  case (9 lib key v)
  then show ?case by (cases v) (auto simp: convertField.simps)
qed auto

text \<open>
  C6, as the code has it. Encoding after decoding gives back every tree in
  canonical wrapper form: decoding returns, encoding the decoded value returns,
  and the result is the tree that was decoded.
\<close>

theorem encode_decode_roundtrip:
  "canonical lib x \<Longrightarrow> encode_decode lib x = Inr x"
  using roundtrip_if_canonical(1)[of lib x] by (auto simp: encode_decode_def)

lemma sample_ObjectId_new_hex:
  "ObjectId_new sample_lib ''507f1f77bcf86cd799439011'' = Inr ''507f1f77bcf86cd799439011''"
  by (simp add: sample_lib_def is_hex_def lower_hex_def)

theorem encode_decode_roundtrip_witness:
  "canonical sample_lib
     (JObj [(''owner'', JObj [(''$oid'', JStr ''507f1f77bcf86cd799439011'')]),
            (''created'', JObj [(''$date'', JStr epoch_iso)]),
            (''size'', JObj [(''$numberLong'', JStr ''12'')]),
            (''_id'', JStr ''order-17''),
            (''tags'', JArr [JStr ''a'', JNull, JNum 3])])
   \<and> encode_decode sample_lib
     (JObj [(''owner'', JObj [(''$oid'', JStr ''507f1f77bcf86cd799439011'')]),
            (''created'', JObj [(''$date'', JStr epoch_iso)]),
            (''size'', JObj [(''$numberLong'', JStr ''12'')]),
            (''_id'', JStr ''order-17''),
            (''tags'', JArr [JStr ''a'', JNull, JNum 3])])
   = Inr
     (JObj [(''owner'', JObj [(''$oid'', JStr ''507f1f77bcf86cd799439011'')]),
            (''created'', JObj [(''$date'', JStr epoch_iso)]),
            (''size'', JObj [(''$numberLong'', JStr ''12'')]),
            (''_id'', JStr ''order-17''),
            (''tags'', JArr [JStr ''a'', JNull, JNum 3])])"
proof -
  have "ObjectId_new sample_lib ''507f1f77bcf86cd799439011'' = Inr ''507f1f77bcf86cd799439011''"
    by (rule sample_ObjectId_new_hex)
  moreover have "Date_new sample_lib (JStr epoch_iso) = Inr (Some 0)"
    and "Date_toISOString sample_lib 0 = epoch_iso"
    and "\<not> ObjectId_isValid sample_lib ''order-17''"
    by (simp_all add: sample_lib_def ObjectId_isValid_def)
  ultimately have c: "canonical sample_lib
     (JObj [(''owner'', JObj [(''$oid'', JStr ''507f1f77bcf86cd799439011'')]),
            (''created'', JObj [(''$date'', JStr epoch_iso)]),
            (''size'', JObj [(''$numberLong'', JStr ''12'')]),
            (''_id'', JStr ''order-17''),
            (''tags'', JArr [JStr ''a'', JNull, JNum 3])])"
    by (simp add: oid_field_def date_field_def epoch_iso_def)
  from c encode_decode_roundtrip[OF c] show ?thesis
    by (intro conjI)
qed

text \<open>
  C6, as the claim states it, fails on a tree with no wrapper at all: the string
  under \<open>_id\<close> is a valid ObjectId, so decoding makes it an ObjectId (lines 50-51)
  and encoding prints it in wrapper form.
\<close>

theorem encode_decode_id_string_counterexample:
  "encode_decode sample_lib (JObj [(''_id'', JStr ''507f1f77bcf86cd799439011'')])
     = Inr (JObj [(''_id'', JObj [(''$oid'', JStr ''507f1f77bcf86cd799439011'')])])
   \<and> encode_decode sample_lib (JObj [(''_id'', JStr ''507f1f77bcf86cd799439011'')])
     \<noteq> Inr (JObj [(''_id'', JStr ''507f1f77bcf86cd799439011'')])"
  by (simp add: encode_decode_def oid_field_def date_field_def ObjectId_isValid_def
      convertField.simps sample_ObjectId_new_hex)

lemma convertEntries_fields:
  "convertEntries lib es = Inr fs \<Longrightarrow> ''__proto__'' \<notin> fst ` set es \<Longrightarrow>
   length fs = length es \<and>
   (\<forall>i<length es. fst (fs ! i) = fst (es ! i) \<and>
      convertField lib (fst (es ! i)) (snd (es ! i)) = Inr (snd (fs ! i)))"
proof (induction es arbitrary: fs)
  case Nil
  then show ?case by simp
next
  case (Cons a es)
  obtain key v where a: "a = (key, v)" by (cases a)
  from Cons.prems a have k: "key \<noteq> ''__proto__''" and r: "''__proto__'' \<notin> fst ` set es"
    by auto
  from Cons.prems(1) a k obtain y gs where
    y: "convertField lib key v = Inr y" and gs: "convertEntries lib es = Inr gs"
    and fs: "fs = (key, y) # gs"
    by (auto split: sum.splits)
  from Cons.IH[OF gs r] show ?case
    using a y fs by (auto simp: nth_Cons split: nat.splits)
qed

lemma convertField_string:
  "convertField lib key (JStr s) =
     (if key = ''_id'' \<and> ObjectId_isValid lib s
      then Inr (DObjectId (projr (ObjectId_new lib s))) else Inr (DStr s))"
  by (auto simp: convertField.simps ObjectId_isValid_def split: sum.splits)

text \<open>
  C10, as the claim states it, fails on an object that line 37 or line 42 takes
  for a wrapper: the loop over the fields is not reached. The object
  \<open>{"_id": "507f1f77bcf86cd799439011", "$date": 1}\<close> has a field \<open>_id\<close> whose string
  is a valid ObjectId, and it is decoded to the Date of time value 1; no ObjectId
  is made.
\<close>

theorem convertExtendedJson_id_in_wrapper_counterexample:
  "ObjectId_isValid sample_lib ''507f1f77bcf86cd799439011''
   \<and> convertExtendedJson sample_lib
       (JObj [(''_id'', JStr ''507f1f77bcf86cd799439011''), (''$date'', JNum 1)])
     = Inr (DDate (Some 1))"
  by (simp add: ObjectId_isValid_def sample_ObjectId_new_hex oid_field_def date_field_def)
    (simp add: sample_lib_def)

text \<open>
  C10, as the code has it. The right-hand side of the loop's assignment never
  throws on a string: it is the ObjectId the string denotes when the key is
  \<open>_id\<close> and \<open>ObjectId.isValid\<close> accepts the string, and the string itself under
  any other key, and under \<open>_id\<close> when the string is not valid. In an object that
  is no \<open>$oid\<close> or \<open>$date\<close> wrapper and has no entry under \<open>__proto__\<close>, when
  decoding returns, the field keeps its place and its key and holds that value.
\<close>

theorem convertExtendedJson_id_field:
  assumes "oid_field es = None" and "date_field es = None"
    and "''__proto__'' \<notin> fst ` set es"
    and "convertExtendedJson lib (JObj es) = Inr d"
    and "i < length es" and "es ! i = (key, JStr s)"
  shows "convertField lib key (JStr s)
           = Inr (if key = ''_id'' \<and> ObjectId_isValid lib s
                  then DObjectId (projr (ObjectId_new lib s)) else DStr s)
       \<and> (\<exists>fs. d = DObj fs \<and> length fs = length es \<and>
             fs ! i = (key, if key = ''_id'' \<and> ObjectId_isValid lib s
                            then DObjectId (projr (ObjectId_new lib s)) else DStr s))"
proof -
  from assms(1,2,4) obtain fs where fs: "convertEntries lib es = Inr fs" and d: "d = DObj fs"
    by (auto split: sum.splits)
  from convertEntries_fields[OF fs assms(3)] assms(5,6)
  have "length fs = length es" and "fst (fs ! i) = key"
    and "convertField lib key (JStr s) = Inr (snd (fs ! i))"
    by auto
  then show ?thesis
    using d by (auto simp: convertField_string prod_eq_iff split: if_splits)
qed

theorem convertExtendedJson_id_field_witness:
  "convertExtendedJson sample_lib
     (JObj [(''_id'', JStr ''507f1f77bcf86cd799439011''), (''ref'', JStr ''507f1f77bcf86cd799439011'')])
   = Inr (DObj [(''_id'', DObjectId ''507f1f77bcf86cd799439011''),
               (''ref'', DStr ''507f1f77bcf86cd799439011'')])
   \<and> (\<exists>fs. DObj [(''_id'', DObjectId ''507f1f77bcf86cd799439011''),
                  (''ref'', DStr ''507f1f77bcf86cd799439011'')] = DObj fs
          \<and> length fs = 2
          \<and> fs ! 0 = (''_id'', DObjectId ''507f1f77bcf86cd799439011''))
   \<and> (\<exists>fs. DObj [(''_id'', DObjectId ''507f1f77bcf86cd799439011''),
                  (''ref'', DStr ''507f1f77bcf86cd799439011'')] = DObj fs
          \<and> length fs = 2
          \<and> fs ! 1 = (''ref'', DStr ''507f1f77bcf86cd799439011''))
   \<and> convertExtendedJson sample_lib (JObj [(''_id'', JStr ''order-17'')])
       = Inr (DObj [(''_id'', DStr ''order-17'')])
   \<and> (\<exists>fs. DObj [(''_id'', DStr ''order-17'')] = DObj fs
          \<and> length fs = 1
          \<and> fs ! 0 = (''_id'', DStr ''order-17''))"
proof -
  let ?es = "[(''_id'', JStr ''507f1f77bcf86cd799439011''), (''ref'', JStr ''507f1f77bcf86cd799439011'')]"
  let ?d = "DObj [(''_id'', DObjectId ''507f1f77bcf86cd799439011''),
                  (''ref'', DStr ''507f1f77bcf86cd799439011'')]"
  let ?es' = "[(''_id'', JStr ''order-17'')]"
  let ?d' = "DObj [(''_id'', DStr ''order-17'')]"
  have v: "ObjectId_isValid sample_lib ''507f1f77bcf86cd799439011''"
    by (simp add: ObjectId_isValid_def sample_ObjectId_new_hex)
  have n: "\<not> ObjectId_isValid sample_lib ''order-17''"
    by (simp add: ObjectId_isValid_def sample_lib_def)
  have a: "oid_field ?es = None" and b: "date_field ?es = None"
    and p: "''__proto__'' \<notin> fst ` set ?es"
    by (simp_all add: oid_field_def date_field_def)
  have c: "convertExtendedJson sample_lib (JObj ?es) = Inr ?d"
    by (simp add: oid_field_def date_field_def ObjectId_isValid_def convertField.simps
        sample_ObjectId_new_hex)
  have a': "oid_field ?es' = None" and b': "date_field ?es' = None"
    and p': "''__proto__'' \<notin> fst ` set ?es'"
    by (simp_all add: oid_field_def date_field_def)
  have c': "convertExtendedJson sample_lib (JObj ?es') = Inr ?d'"
    using n by (simp add: oid_field_def date_field_def convertField.simps)
  from convertExtendedJson_id_field[OF a b p c, of 0 "''_id''" "''507f1f77bcf86cd799439011''"]
  have 0: "\<exists>fs. ?d = DObj fs \<and> length fs = 2
          \<and> fs ! 0 = (''_id'', DObjectId ''507f1f77bcf86cd799439011'')"
    using v by (simp add: sample_ObjectId_new_hex)
  from convertExtendedJson_id_field[OF a b p c, of 1 "''ref''" "''507f1f77bcf86cd799439011''"]
  have 1: "\<exists>fs. ?d = DObj fs \<and> length fs = 2
          \<and> fs ! 1 = (''ref'', DStr ''507f1f77bcf86cd799439011'')"
    by simp
  from convertExtendedJson_id_field[OF a' b' p' c', of 0 "''_id''" "''order-17''"]
  have 2: "\<exists>fs. ?d' = DObj fs \<and> length fs = 1 \<and> fs ! 0 = (''_id'', DStr ''order-17'')"
    using n by simp
  from c 0 1 c' 2 show ?thesis
    by (intro conjI)
qed

section \<open>Properties of the connection pool manager\<close>

lemma closeConnection_resume_clients:
  "clients (closeConnection_resume drv cid h s) = AList.delete cid (clients s)"
  by (simp add: closeConnection_resume_def Let_def split: option.splits)

lemma map_of_delete_self: "map_of (AList.delete k xs) k = None"
  by (simp add: delete_conv')

text \<open>
  C7. \<open>closeConnection\<close> never throws; afterwards no client is cached for the id;
  a second call changes nothing; without a cached client the call changes
  nothing at all; with one, \<open>close()\<close> is called on it, a rejection is only
  logged, and the entry is removed.
\<close>

theorem closeConnection_idempotent:
  "fst (closeConnection drv cid s) = Inr ()
   \<and> map_of (clients (snd (closeConnection drv cid s))) cid = None
   \<and> closeConnection drv cid (snd (closeConnection drv cid s)) = closeConnection drv cid s
   \<and> (case map_of (clients s) cid of
        None \<Rightarrow> snd (closeConnection drv cid s) = s
      | Some p \<Rightarrow>
          clients (snd (closeConnection drv cid s)) = AList.delete cid (clients s)
          \<and> trace (snd (closeConnection drv cid s)) =
              trace s @ Close (client p) #
                (case client_close drv (client p) of
                   None \<Rightarrow> []
                 | Some e \<Rightarrow>
                     [ConsoleError (''Error closing connection '' @ cid @ '':'') (message e)]))"
  by (auto simp: closeConnection_def closeConnection_begin_def closeConnection_resume_def Let_def
      map_of_delete_self split: option.splits)

text \<open>
  C4. The record is looked up in the list \<open>loadConnections()\<close> returns at this
  call. When it has no record with the id, \<open>getClient\<close> throws
  \<open>Connection not found\<close>, and the manager it leaves is the one
  \<open>closeConnection\<close> leaves: no client is cached for the id, and \<open>close()\<close> has
  been called on the one that was.
\<close>

theorem getClient_missing_record:
  assumes "find (\<lambda>c. conn_id c = cid) connections = None"
  shows "fst (getClient drv connections now cid s) = Inl (Error (''Connection not found: '' @ cid))
     \<and> snd (getClient drv connections now cid s) = snd (closeConnection drv cid s)
     \<and> map_of (clients (snd (getClient drv connections now cid s))) cid = None
     \<and> (\<forall>p. map_of (clients s) cid = Some p \<longrightarrow>
            Close (client p) \<in> set (trace (snd (getClient drv connections now cid s))))"
  using assms
  by (auto simp: getClient_def getClient_begin_def getClient_resume_def closeConnection_def
      closeConnection_begin_def closeConnection_resume_def Let_def map_of_delete_self
      split: option.splits)

theorem getClient_missing_record_witness:
  "find (\<lambda>c. conn_id c = ''c1'') ([] :: ConnectionRecord list) = None
   \<and> fst (getClient sample_driver ([] :: ConnectionRecord list) 9 ''c1'' cached_c1)
       = Inl (Error ''Connection not found: c1'')
   \<and> map_of (clients (snd (getClient sample_driver ([] :: ConnectionRecord list) 9 ''c1'' cached_c1))) ''c1''
       = None
   \<and> Close 0 \<in> set (trace (snd (getClient sample_driver ([] :: ConnectionRecord list) 9 ''c1'' cached_c1)))"
proof -
  have n: "find (\<lambda>c. conn_id c = ''c1'') ([] :: ConnectionRecord list) = None"
    by simp
  have p: "map_of (clients cached_c1) ''c1'' = Some \<lparr>client = 0, lastUsed = 1\<rparr>"
    by (simp add: cached_c1_def)
  note r = getClient_missing_record[OF n, of sample_driver 9 cached_c1]
  from r have a: "fst (getClient sample_driver ([] :: ConnectionRecord list) 9 ''c1'' cached_c1)
      = Inl (Error (''Connection not found: '' @ ''c1''))"
    by (rule conjunct1)
  from r have b: "map_of (clients (snd (getClient sample_driver ([] :: ConnectionRecord list) 9 ''c1'' cached_c1))) ''c1''
      = None"
    by (elim conjE)
  from r have "\<forall>p. map_of (clients cached_c1) ''c1'' = Some p \<longrightarrow>
      Close (client p) \<in> set (trace (snd (getClient sample_driver ([] :: ConnectionRecord list) 9 ''c1'' cached_c1)))"
    by (elim conjE)
  from this[rule_format, OF p]
  have c: "Close 0 \<in> set (trace (snd (getClient sample_driver ([] :: ConnectionRecord list) 9 ''c1'' cached_c1)))"
    by simp
  from a have "fst (getClient sample_driver ([] :: ConnectionRecord list) 9 ''c1'' cached_c1)
      = Inl (Error ''Connection not found: c1'')"
    by simp
  with n b c show ?thesis
    by (intro conjI)
qed

lemma sweep_loop_eq:
  "\<forall>(cid, d) \<in> set es. map_of (clients s) cid = Some d \<Longrightarrow>
   sweep_loop now es s =
     (map (\<lambda>(cid, d). (cid, client d)) (filter (\<lambda>(cid, d). now - lastUsed d > idleTimeout s) es),
      s\<lparr>trace := trace s @ map (\<lambda>(cid, d). Close (client d))
                          (filter (\<lambda>(cid, d). now - lastUsed d > idleTimeout s) es)\<rparr>)"
proof (induction es arbitrary: s)
  case Nil
  then show ?case by simp
next
  case (Cons e es)
  obtain cid d where e: "e = (cid, d)" by (cases e)
  show ?case
  proof (cases "now - lastUsed d > idleTimeout s")
    case True
    let ?s1 = "s\<lparr>trace := trace s @ [Close (client d)]\<rparr>"
    from Cons.prems e have b: "closeConnection_begin cid s = (Some (client d), ?s1)"
      by (simp add: closeConnection_begin_def)
    from Cons.prems have "\<forall>(cid, d) \<in> set es. map_of (clients ?s1) cid = Some d"
      by auto
    from Cons.IH[OF this] show ?thesis
      using True e b by simp
  next
    case False
    from Cons.prems have "\<forall>(cid, d) \<in> set es. map_of (clients s) cid = Some d"
      by auto
    from Cons.IH[OF this] show ?thesis
      using False e by simp
  qed
qed

lemma sweep_settle_clients:
  "clients (sweep_settle drv ws s) = filter (\<lambda>e. fst e \<notin> fst ` set ws) (clients s)"
proof (induction ws arbitrary: s)
  case Nil
  then show ?case by (simp add: sweep_settle_def)
next
  case (Cons w ws)
  obtain cid h where w: "w = (cid, h)" by (cases w)
  have "sweep_settle drv (w # ws) s = sweep_settle drv ws (closeConnection_resume drv cid h s)"
    by (simp add: sweep_settle_def w)
  then show ?case
    using Cons.IH[of "closeConnection_resume drv cid h s"]
    by (auto simp: closeConnection_resume_clients AList.delete_eq w intro!: filter_cong)
qed

lemma sweep_loop_clients: "clients (snd (sweep_loop now es s)) = clients s"
  by (induction es arbitrary: s)
    (auto simp: closeConnection_begin_def case_prod_beta split: option.splits)

lemma sweep_loop_idleTimeout: "idleTimeout (snd (sweep_loop now es s)) = idleTimeout s"
  by (induction es arbitrary: s)
    (auto simp: closeConnection_begin_def case_prod_beta split: option.splits)

lemma closeConnection_resume_idleTimeout:
  "idleTimeout (closeConnection_resume drv cid h s) = idleTimeout s"
  by (simp add: closeConnection_resume_def Let_def split: option.splits)

lemma step_distinct:
  "distinct (map fst (clients (mgr c))) \<Longrightarrow>
   distinct (map fst (clients (mgr (step drv conns a c))))"
proof (cases a)
  case (Call cid now)
  assume "distinct (map fst (clients (mgr c)))"
  then show ?thesis
    using Call
    by (auto simp: step_def getClient_begin_def closeConnection_begin_def Let_def
        distinct_update split: option.splits prod.splits sum.splits)
next
  case (CloseCall cid)
  assume "distinct (map fst (clients (mgr c)))"
  then show ?thesis
    using CloseCall
    by (auto simp: step_def closeConnection_begin_def split: option.splits)
next
  case (Tick now)
  assume "distinct (map fst (clients (mgr c)))"
  moreover have "clients (snd (sweep_tick now (mgr c))) = clients (mgr c)"
    by (simp add: sweep_tick_def sweep_loop_clients)
  ultimately show ?thesis
    using Tick by (auto simp: step_def split: prod.splits)
next
  case (Resume k now)
  assume "distinct (map fst (clients (mgr c)))"
  then show ?thesis
    using Resume
    by (auto simp: step_def getClient_resume_def closeConnection_resume_clients
        distinct_update distinct_delete
        split: task.splits suspended.splits option.splits prod.splits)
qed

lemma run_distinct:
  "distinct (map fst (clients (mgr c))) \<Longrightarrow>
   distinct (map fst (clients (mgr (run drv conns as c))))"
  unfolding run_def
  by (induction as arbitrary: c) (auto simp: step_distinct)

text \<open>No method assigns \<open>idleTimeout\<close>: it is what the constructor set.\<close>

lemma step_idleTimeout: "idleTimeout (mgr (step drv conns a c)) = idleTimeout (mgr c)"
proof (cases a)
  case (Call cid now)
  then show ?thesis
    by (auto simp: step_def getClient_begin_def closeConnection_begin_def Let_def
        split: option.splits prod.splits sum.splits)
next
  case (CloseCall cid)
  then show ?thesis
    by (auto simp: step_def closeConnection_begin_def split: option.splits)
next
  case (Tick now)
  have "idleTimeout (snd (sweep_tick now (mgr c))) = idleTimeout (mgr c)"
    by (simp add: sweep_tick_def sweep_loop_idleTimeout)
  then show ?thesis
    using Tick by (auto simp: step_def split: prod.splits)
next
  case (Resume k now)
  then show ?thesis
    by (auto simp: step_def getClient_resume_def closeConnection_resume_idleTimeout
        split: task.splits suspended.splits option.splits prod.splits)
qed

lemma run_idleTimeout: "idleTimeout (mgr (run drv conns as c)) = idleTimeout (mgr c)"
  unfolding run_def
  by (induction as arbitrary: c) (auto simp: step_idleTimeout)

lemma start_idleTimeout: "idleTimeout (mgr (run drv conns as start)) = 300000"
  by (simp add: run_idleTimeout) (simp add: start_def new_manager_def)

lemma start_distinct: "distinct (map fst (clients (mgr (run drv conns as start))))"
  by (rule run_distinct) (simp add: start_def new_manager_def)

lemma tick_due_step: "tick_due created (Suc k) - tick_due created k = 60000"
  by (simp add: tick_due_def cleanupInterval_def algebra_simps)

lemma tick_due_bound:
  assumes "created \<le> u"
  shows "\<exists>j. 300000 < tick_due created j - u \<and> tick_due created j - u \<le> 360000"
proof -
  define a where "a = u + 300000 - created"
  define q where "q = a div 60000"
  define r where "r = a mod 60000"
  define j where "j = nat q"
  from assms have "0 \<le> a" by (simp add: a_def)
  then have "0 \<le> q" by (simp add: q_def)
  then have j: "int j = q"
    by (simp add: j_def)
  have m: "0 \<le> r" "r < 60000"
    by (simp_all add: r_def)
  have "a = q * 60000 + r"
    by (simp add: q_def r_def)
  then have "created + (q + 1) * 60000 - u = 360000 - r"
    unfolding a_def by (simp add: algebra_simps)
  then have "tick_due created j - u = 360000 - r"
    by (simp add: tick_due_def cleanupInterval_def j)
  with m show ?thesis
    by (intro exI[of _ j]) linarith
qed

lemma sample_record_id: "conn_id sample_record = ''c1''"
  by (simp add: sample_record_def)

lemma sample_buildUri: "buildUri sample_driver sample_record = ''mongodb://db.example:27018''"
  by (simp add: buildUri_def sample_record_def sample_driver_def string_of_nat.simps)

lemma sample_MongoClient_new: "MongoClient_new sample_driver ''mongodb://db.example:27018'' opts = None"
  by (simp add: sample_driver_def has_scheme_def)

lemma getClient_begin_uncached:
  "find (\<lambda>r. conn_id r = cid) connections = Some c \<Longrightarrow> map_of (clients s) cid = None \<Longrightarrow>
   MongoClient_new drv (buildUri drv c) (clientOptions s c) = None \<Longrightarrow>
   getClient_begin drv connections now cid s =
     (Inr (AwaitConnect cid (instances s)),
      s\<lparr>instances := Suc (instances s),
        trace := trace s @ [New (instances s) (buildUri drv c) (clientOptions s c),
                            Connect (instances s)]\<rparr>)"
  by (simp add: getClient_begin_def Let_def)

lemma sample_getClient_begin:
  "map_of (clients s) ''c1'' = None \<Longrightarrow>
   getClient_begin sample_driver [sample_record] now ''c1'' s =
     (Inr (AwaitConnect ''c1'' (instances s)),
      s\<lparr>instances := Suc (instances s),
        trace := trace s @ [New (instances s) ''mongodb://db.example:27018''
                              (clientOptions s sample_record),
                            Connect (instances s)]\<rparr>)"
  by (simp add: getClient_begin_def sample_record_id sample_buildUri sample_MongoClient_new Let_def)

lemma sample_getClient_resume:
  "getClient_resume sample_driver now (AwaitConnect cid h) s =
     (Inr h, s\<lparr>clients := AList.update cid \<lparr>client = h, lastUsed = now\<rparr> (clients s)\<rparr>)"
  by (simp add: getClient_resume_def sample_driver_def)

lemma sample_records_c1:
  "map_of (clients s) ''c1'' = None \<Longrightarrow>
   getClient_begin sample_driver sample_records now ''c1'' s =
     (Inr (AwaitConnect ''c1'' (instances s)),
      s\<lparr>instances := Suc (instances s),
        trace := trace s @ [New (instances s) ''mongodb://db.example:27018''
                              (clientOptions s sample_record),
                            Connect (instances s)]\<rparr>)"
proof -
  assume n: "map_of (clients s) ''c1'' = None"
  have f: "find (\<lambda>r. conn_id r = ''c1'') sample_records = Some sample_record"
    by (simp add: sample_records_def sample_record_id)
  have m: "MongoClient_new sample_driver (buildUri sample_driver sample_record)
             (clientOptions s sample_record) = None"
    by (simp add: sample_buildUri sample_MongoClient_new)
  from getClient_begin_uncached[OF f n m] show ?thesis
    by (simp add: sample_buildUri)
qed

lemma sample_records_c2:
  "map_of (clients s) ''c2'' = None \<Longrightarrow>
   getClient_begin sample_driver sample_records now ''c2'' s =
     (Inr (AwaitConnect ''c2'' (instances s)),
      s\<lparr>instances := Suc (instances s),
        trace := trace s @ [New (instances s) ''mongodb://db2.example:27018''
                              (clientOptions s sample_record),
                            Connect (instances s)]\<rparr>)"
proof -
  let ?r = "sample_record\<lparr>conn_id := ''c2'', host := ''db2.example''\<rparr>"
  assume n: "map_of (clients s) ''c2'' = None"
  have f: "find (\<lambda>r. conn_id r = ''c2'') sample_records = Some ?r"
    by (simp add: sample_records_def sample_record_id)
  have u: "buildUri sample_driver ?r = ''mongodb://db2.example:27018''"
    by (simp add: buildUri_def sample_record_def sample_driver_def string_of_nat.simps)
  have o: "clientOptions s ?r = clientOptions s sample_record"
    by (simp add: clientOptions_def)
  have m: "MongoClient_new sample_driver (buildUri sample_driver ?r) (clientOptions s ?r) = None"
    by (simp add: u) (simp add: sample_driver_def has_scheme_def)
  from getClient_begin_uncached[OF f n m] show ?thesis
    by (simp add: u o)
qed

lemma sample_run_two_clients:
  "run sample_driver sample_records
     [Call ''c1'' 2, Resume 0 2, Call ''c2'' 3, Resume 0 3] start
   = \<lparr> mgr = \<lparr> clients = [(''c1'', \<lparr>client = 0, lastUsed = 2\<rparr>),
                           (''c2'', \<lparr>client = 1, lastUsed = 3\<rparr>)],
                idleTimeout = 300000, instances = 2,
                trace = [New 0 ''mongodb://db.example:27018'' (clientOptions new_manager sample_record),
                         Connect 0,
                         New 1 ''mongodb://db2.example:27018'' (clientOptions new_manager sample_record),
                         Connect 1] \<rparr>,
        waiting = [], results = [Inr 0, Inr 1] \<rparr>"
  by (simp add: run_def step_def sample_records_c1 sample_records_c2 sample_getClient_resume
      start_def new_manager_def clientOptions_def)

lemma idle_sweep_entries:
  assumes "distinct (map fst (clients s))"
    and "sweep_tick now s = (ws, s1)" and "set ws' = set ws"
  shows "clients (sweep_settle drv ws' s1)
           = filter (\<lambda>(cid, d). now - lastUsed d \<le> idleTimeout s) (clients s)
       \<and> (\<forall>(cid, d) \<in> set (clients s). now - lastUsed d > idleTimeout s \<longrightarrow>
             Close (client d) \<in> set (trace s1)
             \<and> map_of (clients (sweep_settle drv ws' s1)) cid = None)
       \<and> (\<forall>(cid, d) \<in> set (clients (sweep_settle drv ws' s1)).
             now - lastUsed d \<le> idleTimeout s)"
proof -
  let ?idle = "\<lambda>(cid, d). now - lastUsed d > idleTimeout s"
  from assms(1) have m: "\<forall>(cid, d) \<in> set (clients s). map_of (clients s) cid = Some d"
    by auto
  from sweep_loop_eq[OF m, of now] assms(2)
  have ws: "ws = map (\<lambda>(cid, d). (cid, client d)) (filter ?idle (clients s))"
    and s1: "s1 = s\<lparr>trace := trace s @ map (\<lambda>(cid, d). Close (client d)) (filter ?idle (clients s))\<rparr>"
    by (simp_all add: sweep_tick_def)
  have keys: "fst ` set ws' = fst ` set (filter ?idle (clients s))"
    using assms(3) ws by (force simp: image_iff)
  have iff: "(fst e \<notin> fst ` set (filter ?idle (clients s))) = (\<not> ?idle e)"
    if e: "e \<in> set (clients s)" for e
  proof
    assume "fst e \<notin> fst ` set (filter ?idle (clients s))"
    then show "\<not> ?idle e" using e by force
  next
    assume n: "\<not> ?idle e"
    show "fst e \<notin> fst ` set (filter ?idle (clients s))"
    proof
      assume "fst e \<in> fst ` set (filter ?idle (clients s))"
      then obtain e' where e': "e' \<in> set (clients s)" "?idle e'" "fst e' = fst e"
        by auto
      from assms(1) e e'(1,3) have "e' = e"
        by (metis eq_key_imp_eq_value prod.collapse)
      with n e'(2) show False by simp
    qed
  qed
  have c: "clients (sweep_settle drv ws' s1)
           = filter (\<lambda>(cid, d). now - lastUsed d \<le> idleTimeout s) (clients s)"
  proof -
    have "clients s1 = clients s" using s1 by simp
    moreover have "filter (\<lambda>e. fst e \<notin> fst ` set (filter ?idle (clients s))) (clients s)
        = filter (\<lambda>(cid, d). now - lastUsed d \<le> idleTimeout s) (clients s)"
    proof (rule filter_cong[OF refl])
      fix e assume "e \<in> set (clients s)"
      from iff[OF this] show "(fst e \<notin> fst ` set (filter ?idle (clients s)))
          = (case e of (cid, d) \<Rightarrow> now - lastUsed d \<le> idleTimeout s)"
        by (cases e) (simp add: not_less)
    qed
    ultimately show ?thesis
      by (simp only: sweep_settle_clients keys)
  qed
  have t: "\<forall>(cid, d) \<in> set (clients s). now - lastUsed d > idleTimeout s \<longrightarrow>
             Close (client d) \<in> set (trace s1)"
    using s1 by force
  have g: "\<forall>(cid, d) \<in> set (clients s). now - lastUsed d > idleTimeout s \<longrightarrow>
             map_of (clients (sweep_settle drv ws' s1)) cid = None"
  proof (clarify)
    fix cid d assume e: "(cid, d) \<in> set (clients s)" and i: "now - lastUsed d > idleTimeout s"
    have "cid \<notin> fst ` set (clients (sweep_settle drv ws' s1))"
    proof
      assume "cid \<in> fst ` set (clients (sweep_settle drv ws' s1))"
      then obtain d' where d': "(cid, d') \<in> set (clients s)" "now - lastUsed d' \<le> idleTimeout s"
        unfolding c by auto
      from assms(1) e d'(1) have "d' = d" by (meson eq_key_imp_eq_value)
      with i d'(2) show False by simp
    qed
    then show "map_of (clients (sweep_settle drv ws' s1)) cid = None"
      by (simp add: map_of_eq_None_iff)
  qed
  show ?thesis
    using c t g by auto
qed

text \<open>
  C8. The manager is the one the constructor made, after any schedule of calls,
  closes, ticks and answers. A tick of the sweep at time \<open>now\<close>: \<open>close()\<close> is
  called during the tick on every client whose \<open>lastUsed\<close> is more than 5
  minutes (300000 ms, the \<open>idleTimeout\<close> of the constructor) before \<open>now\<close>, and
  once the closes have been answered, in whatever order, the Map holds exactly
  the entries used within the 5 minutes, unchanged and in their order. The
  ticks are due 60000 ms apart; so a client last used at time \<open>u\<close> is found idle
  by a tick that is due more than 5 and at most 6 minutes after \<open>u\<close>.
\<close>

theorem idle_sweep:
  assumes "s = mgr (run drv connections as start)"
    and "sweep_tick now s = (ws, s1)" and "set ws' = set ws"
  shows "clients (sweep_settle drv ws' s1)
           = filter (\<lambda>(cid, d). now - lastUsed d \<le> 5 * 60 * 1000) (clients s)
       \<and> (\<forall>(cid, d) \<in> set (clients s). now - lastUsed d > 5 * 60 * 1000 \<longrightarrow>
             Close (client d) \<in> set (trace s1)
             \<and> map_of (clients (sweep_settle drv ws' s1)) cid = None)
       \<and> (\<forall>(cid, d) \<in> set (clients (sweep_settle drv ws' s1)).
             now - lastUsed d \<le> 5 * 60 * 1000)
       \<and> tick_due created (Suc k) - tick_due created k = 60000
       \<and> (created \<le> u \<longrightarrow>
            (\<exists>j. 5 * 60 * 1000 < tick_due created j - u
                 \<and> tick_due created j - u \<le> 5 * 60 * 1000 + 60000))"
proof -
  have d: "distinct (map fst (clients s))"
    unfolding assms(1) by (rule start_distinct)
  have i: "idleTimeout s = 5 * 60 * 1000"
    unfolding assms(1) by (simp add: start_idleTimeout)
  have b: "created \<le> u \<longrightarrow>
            (\<exists>j. 5 * 60 * 1000 < tick_due created j - u
                 \<and> tick_due created j - u \<le> 5 * 60 * 1000 + 60000)"
    using tick_due_bound[of created u] by simp
  from idle_sweep_entries[OF d assms(2,3), of drv, unfolded i] tick_due_step[of created k] b
  show ?thesis
    by (intro conjI) (elim conjE, assumption)+
qed

theorem idle_sweep_witness:
  "clients (mgr (run sample_driver sample_records
       [Call ''c1'' 2, Resume 0 2, Call ''c2'' 3, Resume 0 3] start))
     = [(''c1'', \<lparr>client = 0, lastUsed = 2\<rparr>), (''c2'', \<lparr>client = 1, lastUsed = 3\<rparr>)]
   \<and> fst (sweep_tick 300003 (mgr (run sample_driver sample_records
       [Call ''c1'' 2, Resume 0 2, Call ''c2'' 3, Resume 0 3] start))) = [(''c1'', 0)]
   \<and> clients (sweep_settle sample_driver [(''c1'', 0)]
       (snd (sweep_tick 300003 (mgr (run sample_driver sample_records
          [Call ''c1'' 2, Resume 0 2, Call ''c2'' 3, Resume 0 3] start)))))
     = [(''c2'', \<lparr>client = 1, lastUsed = 3\<rparr>)]
   \<and> tick_due 0 (Suc 4) - tick_due 0 4 = 60000
   \<and> (\<exists>j. 300000 < tick_due 0 j - 2 \<and> tick_due 0 j - 2 \<le> 360000)"
proof -
  let ?s = "mgr (run sample_driver sample_records
       [Call ''c1'' 2, Resume 0 2, Call ''c2'' 3, Resume 0 3] start)"
  have c: "clients ?s = [(''c1'', \<lparr>client = 0, lastUsed = 2\<rparr>), (''c2'', \<lparr>client = 1, lastUsed = 3\<rparr>)]"
    by (simp add: sample_run_two_clients)
  have i: "idleTimeout ?s = 300000"
    by (simp add: sample_run_two_clients)
  have t: "fst (sweep_tick 300003 ?s) = [(''c1'', 0)]"
    by (simp add: sweep_tick_def c i closeConnection_begin_def)
  have p: "sweep_tick 300003 ?s = ([(''c1'', 0)], snd (sweep_tick 300003 ?s))"
    using t by (simp add: prod_eq_iff)
  note r = idle_sweep[OF refl p refl, where created = 0 and k = 4 and u = 2]
  from r have 1: "clients (sweep_settle sample_driver [(''c1'', 0)] (snd (sweep_tick 300003 ?s)))
      = filter (\<lambda>(cid, d). 300003 - lastUsed d \<le> 5 * 60 * 1000) (clients ?s)"
    by (rule conjunct1)
  from r have 2: "tick_due 0 (Suc 4) - tick_due 0 4 = 60000"
    by (elim conjE)
  from r have 3: "\<exists>j. 300000 < tick_due 0 j - 2 \<and> tick_due 0 j - 2 \<le> 360000"
    by (elim conjE) simp
  from 1 have 4: "clients (sweep_settle sample_driver [(''c1'', 0)] (snd (sweep_tick 300003 ?s)))
      = [(''c2'', \<lparr>client = 1, lastUsed = 3\<rparr>)]"
    by (simp add: c)
  from c t 4 2 3 show ?thesis
    by (intro conjI)
qed

text \<open>
  C1, as the claim states it, fails. Two requests call \<open>getClient\<close> for the same
  id before either connect has been answered: the first call leaves nothing in
  the Map when it suspends, so the second finds no entry and constructs a driver
  client of its own. Both connect, and each caller gets its own client: two
  driver clients have been constructed for the one id.
\<close>

theorem getClient_two_callers_counterexample:
  "run sample_driver [sample_record] [Call ''c1'' 0, Call ''c1'' 1] start
     = \<lparr> mgr = \<lparr> clients = [], idleTimeout = 300000, instances = 2,
                  trace = [New 0 ''mongodb://db.example:27018'' (clientOptions new_manager sample_record),
                           Connect 0,
                           New 1 ''mongodb://db.example:27018'' (clientOptions new_manager sample_record),
                           Connect 1] \<rparr>,
          waiting = [InGetClient (AwaitConnect ''c1'' 0), InGetClient (AwaitConnect ''c1'' 1)],
          results = [] \<rparr>
   \<and> run sample_driver [sample_record] [Call ''c1'' 0, Call ''c1'' 1, Resume 0 2, Resume 0 3] start
     = \<lparr> mgr = \<lparr> clients = [(''c1'', \<lparr>client = 1, lastUsed = 3\<rparr>)], idleTimeout = 300000,
                  instances = 2,
                  trace = [New 0 ''mongodb://db.example:27018'' (clientOptions new_manager sample_record),
                           Connect 0,
                           New 1 ''mongodb://db.example:27018'' (clientOptions new_manager sample_record),
                           Connect 1] \<rparr>,
          waiting = [], results = [Inr 0, Inr 1] \<rparr>"
  by (simp add: run_def step_def sample_getClient_begin sample_getClient_resume start_def
      new_manager_def clientOptions_def)

lemma update_absent: "map_of xs k = None \<Longrightarrow> AList.update k v xs = xs @ [(k, v)]"
  by (induction xs) (auto split: if_splits)

text \<open>
  C1, as the code has it. Under every schedule the Map has at most one entry per
  id. A call that finds the record and a client cached for the id returns that
  client, refreshes \<open>lastUsed\<close> and constructs nothing. A call that finds the
  record and no client cached constructs one driver client and suspends at its
  connect with the Map as it was: nothing marks the id as being connected. When
  the connect has succeeded and no client is cached for the id, the new client is
  stored under the id and returned; when it has failed, the call throws
  \<open>Failed to connect to MongoDB server\<close> and the Map is as it was.
\<close>

theorem getClient_pool_entries:
  "distinct (map fst (clients (mgr (run drv connections as start))))
   \<and> (find (\<lambda>r. conn_id r = cid) connections = Some c \<and> map_of (clients s) cid = Some p \<longrightarrow>
        getClient_begin drv connections now cid s =
          (Inl (Inr (client p)),
           s\<lparr>clients := AList.update cid (p\<lparr>lastUsed := now\<rparr>) (clients s)\<rparr>))
   \<and> (find (\<lambda>r. conn_id r = cid) connections = Some c \<and> map_of (clients s) cid = None
        \<and> MongoClient_new drv (buildUri drv c) (clientOptions s c) = None \<longrightarrow>
        getClient_begin drv connections now cid s =
          (Inr (AwaitConnect cid (instances s)),
           s\<lparr>instances := Suc (instances s),
             trace := trace s @ [New (instances s) (buildUri drv c) (clientOptions s c),
                                 Connect (instances s)]\<rparr>))
   \<and> (client_connect drv h = None \<and> map_of (clients s) cid = None \<longrightarrow>
        getClient_resume drv now (AwaitConnect cid h) s =
          (Inr h, s\<lparr>clients := clients s @ [(cid, \<lparr>client = h, lastUsed = now\<rparr>)]\<rparr>))
   \<and> (client_connect drv h = Some e \<longrightarrow>
        getClient_resume drv now (AwaitConnect cid h) s =
          (Inl (Error (''Failed to connect to MongoDB server: '' @ message e)), s))"
proof -
  have "distinct (map fst (clients (mgr (run drv connections as start))))"
    by (rule start_distinct)
  then show ?thesis
    by (simp add: getClient_begin_def getClient_resume_def Let_def update_absent)
qed

theorem getClient_pool_entries_witness:
  "distinct (map fst (clients (mgr (run sample_driver [sample_record]
              [Call ''c1'' 0, Call ''c1'' 1, Resume 0 2, Resume 0 3] start))))
   \<and> getClient_begin sample_driver [sample_record] 9 ''c1'' cached_c1 =
        (Inl (Inr 0), cached_c1\<lparr>clients := [(''c1'', \<lparr>client = 0, lastUsed = 9\<rparr>)]\<rparr>)
   \<and> getClient_begin sample_driver [sample_record] 9 ''c1'' new_manager =
        (Inr (AwaitConnect ''c1'' 0),
         new_manager\<lparr>instances := 1,
           trace := [New 0 ''mongodb://db.example:27018'' (clientOptions new_manager sample_record),
                     Connect 0]\<rparr>)
   \<and> getClient_resume sample_driver 10 (AwaitConnect ''c1'' 0) new_manager =
        (Inr 0, new_manager\<lparr>clients := [(''c1'', \<lparr>client = 0, lastUsed = 10\<rparr>)]\<rparr>)
   \<and> getClient_resume refusing_driver 10 (AwaitConnect ''c1'' 0) new_manager =
        (Inl (Error ''Failed to connect to MongoDB server: Authentication failed.''), new_manager)"
proof -
  have f: "find (\<lambda>r. conn_id r = ''c1'') [sample_record] = Some sample_record"
    by (simp add: sample_record_id)
  have p: "map_of (clients cached_c1) ''c1'' = Some \<lparr>client = 0, lastUsed = 1\<rparr>"
    by (simp add: cached_c1_def)
  have n: "map_of (clients new_manager) ''c1'' = None"
    by (simp add: new_manager_def)
  have m: "MongoClient_new sample_driver (buildUri sample_driver sample_record)
             (clientOptions new_manager sample_record) = None"
    by (simp add: sample_buildUri sample_MongoClient_new)
  have k: "client_connect sample_driver 0 = None"
    by (simp add: sample_driver_def)
  have e: "client_connect refusing_driver 0
      = Some (JsError ''Authentication failed.'' (Some 18) (Some ''AuthenticationFailed''))"
    by (simp add: refusing_driver_def)
  from getClient_pool_entries[where drv = sample_driver and connections = "[sample_record]"
      and as = "[Call ''c1'' 0, Call ''c1'' 1, Resume 0 2, Resume 0 3]" and cid = "''c1''"
      and c = sample_record and s = cached_c1 and p = "\<lparr>client = 0, lastUsed = 1\<rparr>" and now = 9]
    f p
  have 1: "distinct (map fst (clients (mgr (run sample_driver [sample_record]
              [Call ''c1'' 0, Call ''c1'' 1, Resume 0 2, Resume 0 3] start))))"
    and 2: "getClient_begin sample_driver [sample_record] 9 ''c1'' cached_c1 =
        (Inl (Inr 0), cached_c1\<lparr>clients := [(''c1'', \<lparr>client = 0, lastUsed = 9\<rparr>)]\<rparr>)"
    by (simp_all add: cached_c1_def)
  from getClient_pool_entries[where drv = sample_driver and connections = "[sample_record]"
      and as = "[]" and cid = "''c1''" and c = sample_record and s = new_manager
      and now = 9 and h = 0]
    f n m k
  have 3: "getClient_begin sample_driver [sample_record] 9 ''c1'' new_manager =
        (Inr (AwaitConnect ''c1'' 0),
         new_manager\<lparr>instances := 1,
           trace := [New 0 ''mongodb://db.example:27018'' (clientOptions new_manager sample_record),
                     Connect 0]\<rparr>)"
    by (simp add: new_manager_def sample_buildUri)
  from getClient_pool_entries[where drv = sample_driver and connections = "[sample_record]"
      and as = "[]" and cid = "''c1''" and s = new_manager and now = 10 and h = 0]
    n k
  have 4: "getClient_resume sample_driver 10 (AwaitConnect ''c1'' 0) new_manager =
        (Inr 0, new_manager\<lparr>clients := [(''c1'', \<lparr>client = 0, lastUsed = 10\<rparr>)]\<rparr>)"
    by (simp add: new_manager_def)
  from getClient_pool_entries[where drv = refusing_driver and connections = "[sample_record]"
      and as = "[]" and cid = "''c1''" and s = new_manager and now = 10 and h = 0
      and e = "JsError ''Authentication failed.'' (Some 18) (Some ''AuthenticationFailed'')"]
    e
  have 5: "getClient_resume refusing_driver 10 (AwaitConnect ''c1'' 0) new_manager =
        (Inl (Error ''Failed to connect to MongoDB server: Authentication failed.''), new_manager)"
    by simp
  from 1 2 3 4 5 show ?thesis
    by (intro conjI)
qed

lemma sample_uri_refused:
  "MongoClient_new sample_driver ''localhost:27017'' opts = Some MongoParseError"
  by (simp add: sample_driver_def has_scheme_def)

text \<open>
  C5. \<open>testConnection\<close> throws on the configuration \<open>{uri: "localhost:27017"}\<close>:
  line 464 constructs the client before the \<open>try\<close> of line 469, and the driver's
  constructor throws on a connection string without the \<open>mongodb\<close> scheme. No
  result object is returned.
\<close>

theorem testConnection_bad_uri_throws:
  "testConnection sample_driver (sample_record\<lparr>uri := ''localhost:27017''\<rparr>) new_manager
     = (Inl MongoParseError, new_manager)"
  by (simp add: testConnection_def buildUri_def sample_record_def sample_uri_refused)


text \<open>
  Once the driver client is constructed, \<open>testConnection\<close> returns a result
  object and has called \<open>close()\<close> on the client, whatever fails; a failure with
  code 13, code name \<open>Unauthorized\<close> or code 18 is reported with the
  authentication message, whatever the driver's own message says.
\<close>

theorem testConnection_once_constructed:
  assumes "MongoClient_new drv (buildUri drv c)
             [(''connectTimeoutMS'', JNum 5000), (''serverSelectionTimeoutMS'', JNum 5000)] = None"
  shows "(\<exists>r s'. testConnection drv c s = (Inr r, s') \<and> Close (instances s) \<in> set (trace s'))
       \<and> (\<forall>e. client_connect drv (instances s) = Some e \<longrightarrow>
            fst (testConnection drv c s) =
              Inr \<lparr> success = False, version = None,
                    result_message = ''Connection failed: '' @
                      (if code e = Some 13 \<or> codeName e = Some ''Unauthorized''
                       then ''Authentication failed. Please check username and password.''
                       else if code e = Some 18 then ''Authentication failed. Invalid credentials.''
                       else message e) \<rparr>)"
  using assms
  by (auto simp: testConnection_def testConnection_catch_def Let_def
      split: option.splits sum.splits)

theorem testConnection_once_constructed_witness:
  "(\<exists>r s'. testConnection refusing_driver sample_record new_manager = (Inr r, s')
        \<and> Close (instances new_manager) \<in> set (trace s'))
   \<and> fst (testConnection refusing_driver sample_record new_manager) =
        Inr \<lparr> success = False, version = None,
              result_message = ''Connection failed: Authentication failed. Invalid credentials.'' \<rparr>"
proof -
  have u: "buildUri refusing_driver sample_record = ''mongodb://db.example:27018''"
    by (simp add: buildUri_def sample_record_def refusing_driver_def sample_driver_def
        string_of_nat.simps)
  have m: "MongoClient_new refusing_driver (buildUri refusing_driver sample_record)
             [(''connectTimeoutMS'', JNum 5000), (''serverSelectionTimeoutMS'', JNum 5000)] = None"
    by (simp add: u) (simp add: refusing_driver_def sample_driver_def has_scheme_def)
  have e: "client_connect refusing_driver (instances new_manager)
      = Some (JsError ''Authentication failed.'' (Some 18) (Some ''AuthenticationFailed''))"
    by (simp add: refusing_driver_def)
  note r = testConnection_once_constructed[OF m, of new_manager]
  from r have a: "\<exists>r s'. testConnection refusing_driver sample_record new_manager = (Inr r, s')
        \<and> Close (instances new_manager) \<in> set (trace s')"
    by (rule conjunct1)
  from r have "\<forall>e. client_connect refusing_driver (instances new_manager) = Some e \<longrightarrow>
            fst (testConnection refusing_driver sample_record new_manager) =
              Inr \<lparr> success = False, version = None,
                    result_message = ''Connection failed: '' @
                      (if code e = Some 13 \<or> codeName e = Some ''Unauthorized''
                       then ''Authentication failed. Please check username and password.''
                       else if code e = Some 18 then ''Authentication failed. Invalid credentials.''
                       else message e) \<rparr>"
    by (rule conjunct2)
  from this[rule_format, OF e]
  have b: "fst (testConnection refusing_driver sample_record new_manager) =
        Inr \<lparr> success = False, version = None,
              result_message = ''Connection failed: Authentication failed. Invalid credentials.'' \<rparr>"
    by simp
  from a b show ?thesis by (intro conjI)
qed

text \<open>
  A first call of \<open>getClient\<close> for an id, awaited to its end, constructs a client,
  connects it and caches it; a second call for the id returns the same client
  and constructs nothing.
\<close>

theorem getClient_second_call_cached:
  assumes "find (\<lambda>r. conn_id r = cid) connections = Some c"
    and "map_of (clients s) cid = None"
    and "MongoClient_new drv (buildUri drv c) (clientOptions s c) = None"
    and "client_connect drv (instances s) = None"
    and "getClient drv connections now cid s = (r1, s1)"
    and "getClient drv connections now' cid s1 = (r2, s2)"
  shows "r1 = Inr (instances s) \<and> r2 = Inr (instances s)
       \<and> map_of (clients s1) cid = Some \<lparr>client = instances s, lastUsed = now\<rparr>
       \<and> map_of (clients s2) cid = Some \<lparr>client = instances s, lastUsed = now'\<rparr>
       \<and> instances s1 = Suc (instances s) \<and> instances s2 = instances s1
       \<and> trace s2 = trace s1"
  using assms
  by (auto simp: getClient_def getClient_begin_def getClient_resume_def Let_def update_conv')

theorem getClient_second_call_cached_witness:
  "getClient sample_driver [sample_record] 1 ''c1'' new_manager
     = (Inr 0, new_manager\<lparr>clients := [(''c1'', \<lparr>client = 0, lastUsed = 1\<rparr>)], instances := 1,
                 trace := [New 0 ''mongodb://db.example:27018'' (clientOptions new_manager sample_record),
                           Connect 0]\<rparr>)
   \<and> fst (getClient sample_driver [sample_record] 2 ''c1''
        (snd (getClient sample_driver [sample_record] 1 ''c1'' new_manager))) = Inr 0
   \<and> instances (snd (getClient sample_driver [sample_record] 2 ''c1''
        (snd (getClient sample_driver [sample_record] 1 ''c1'' new_manager)))) = 1"
proof -
  have f: "find (\<lambda>r. conn_id r = ''c1'') [sample_record] = Some sample_record"
    by (simp add: sample_record_id)
  have n: "map_of (clients new_manager) ''c1'' = None"
    by (simp add: new_manager_def)
  have m: "MongoClient_new sample_driver (buildUri sample_driver sample_record)
             (clientOptions new_manager sample_record) = None"
    by (simp add: sample_buildUri sample_MongoClient_new)
  have k: "client_connect sample_driver (instances new_manager) = None"
    by (simp add: sample_driver_def)
  have g: "getClient sample_driver [sample_record] 1 ''c1'' new_manager
     = (Inr 0, new_manager\<lparr>clients := [(''c1'', \<lparr>client = 0, lastUsed = 1\<rparr>)], instances := 1,
                 trace := [New 0 ''mongodb://db.example:27018'' (clientOptions new_manager sample_record),
                           Connect 0]\<rparr>)"
    by (simp add: getClient_def sample_getClient_begin[OF n] sample_getClient_resume)
      (simp add: new_manager_def)
  from getClient_second_call_cached[OF f n m k surjective_pairing surjective_pairing,
      of 1 2]
  have "fst (getClient sample_driver [sample_record] 2 ''c1''
        (snd (getClient sample_driver [sample_record] 1 ''c1'' new_manager))) = Inr (instances new_manager)"
    and "instances (snd (getClient sample_driver [sample_record] 2 ''c1''
        (snd (getClient sample_driver [sample_record] 1 ''c1'' new_manager))))
         = Suc (instances new_manager)"
    by simp_all
  with g show ?thesis
    by (simp add: new_manager_def)
qed

section \<open>Properties of the command interpreter\<close>

lemma lenient_filter_unparsable: "JSON_parse env t = Inl e \<Longrightarrow> lenient_filter env t = JObj []"
  by (simp add: lenient_filter_def)

lemma lenient_filter_empty: "lenient_filter env [] = JObj []"
  by (simp add: lenient_filter_def)

lemma find_cursor_unparsable_filter:
  "JSON_parse env t = Inl e \<Longrightarrow>
   find_cursor env db c t l sk so = find_cursor env db c [] l sk so"
  by (simp add: find_cursor_def lenient_filter_unparsable lenient_filter_empty)

lemma find_cursor_unparsable_sort:
  "JSON_parse env t = Inl e \<Longrightarrow>
   find_cursor env db c f l sk (Some t) = find_cursor env db c f l sk None"
  by (simp add: find_cursor_def)

lemma executeShell_perform:
  "command \<noteq> [] \<Longrightarrow> getClient_throws env = None \<Longrightarrow>
   executeShell env database command =
     perform env (if database \<noteq> [] then database else ''admin'') (recognize (trim command))"
  by (simp add: executeShell_def)

lemma try_call_parse1_fails:
  "JSON_parse env t = Inl e \<Longrightarrow>
   try_call env db prefix (parse1 env t mk) k = error_response (prefix @ message e)"
  by (simp add: try_call_def parse1_def)

lemma try_call_parse2_fails:
  "JSON_parse env t = Inl e \<or> (JSON_parse env t = Inr v \<and> JSON_parse env u = Inl e) \<Longrightarrow>
   try_call env db prefix (parse2 env t u mk) k = error_response (prefix @ message e)"
  by (auto simp: try_call_def parse2_def)

text \<open>
  C3, as the code has it. A command has reached the interpreter's dispatch
  (\<open>command\<close> is not empty, \<open>getClient\<close> has returned) and \<open>JSON.parse\<close> throws
  \<open>e\<close> on the text \<open>t\<close>. When \<open>t\<close> is the argument of a writing shape, of
  \<open>aggregate\<close>, of \<open>createIndex\<close> or the raw command, the response is
  \<open>{error: prefix + e.message}\<close> with the prefix of that shape's \<open>catch\<close>; for
  \<open>updateOne\<close> and \<open>updateMany\<close> the prefix names no argument. When \<open>t\<close> is the
  filter of \<open>find\<close>, \<open>findOne\<close>, \<open>countDocuments\<close> or \<open>count\<close>, or the sort of
  \<open>find\<close>, the error is dropped: the response is that of the same command with
  the empty filter, or with no sort. In every case a response is returned.
\<close>

theorem json_argument_errors:
  assumes "command \<noteq> []" and "getClient_throws env = None"
    and "JSON_parse env t = Inl e"
    and "db = (if database \<noteq> [] then database else ''admin'')"
  shows
   "(recognize (trim command) = InsertOneS c t \<or> recognize (trim command) = InsertS c t \<longrightarrow>
       executeShell env database command = error_response (''Invalid document JSON: '' @ message e))
  \<and> (recognize (trim command) = InsertManyS c t \<longrightarrow>
       executeShell env database command = error_response (''Invalid documents JSON: '' @ message e))
  \<and> ((recognize (trim command) = DeleteOneS c u \<or> recognize (trim command) = DeleteManyS c u)
       \<and> trim u = t \<longrightarrow>
       executeShell env database command = error_response (''Invalid filter JSON: '' @ message e))
  \<and> (recognize (trim command) = AggregateS c t \<longrightarrow>
       executeShell env database command = error_response (''Invalid pipeline JSON: '' @ message e))
  \<and> (recognize (trim command) = CreateIndexS c t \<longrightarrow>
       executeShell env database command = error_response (''Invalid keys JSON: '' @ message e))
  \<and> (recognize (trim command) = RawS t \<longrightarrow>
       executeShell env database command = error_response (''Invalid JSON command: '' @ message e))
  \<and> ((recognize (trim command) = UpdateOneS c u w \<or> recognize (trim command) = UpdateManyS c u w)
       \<and> (trim u = t \<or> (JSON_parse env (trim u) = Inr v \<and> trim w = t)) \<longrightarrow>
       executeShell env database command = error_response (''Invalid JSON: '' @ message e))
  \<and> (recognize (trim command) = FindS c t l sk so \<longrightarrow>
       executeShell env database command = perform env db (FindS c [] l sk so))
  \<and> (recognize (trim command) = FindS c f l sk (Some t) \<longrightarrow>
       executeShell env database command = perform env db (FindS c f l sk None))
  \<and> (recognize (trim command) = FindOneS c t \<longrightarrow>
       executeShell env database command = perform env db (FindOneS c []))
  \<and> (recognize (trim command) = CountDocumentsS c t \<or> recognize (trim command) = CountS c t \<longrightarrow>
       executeShell env database command = perform env db (CountDocumentsS c []))"
proof -
  note x = executeShell_perform[OF assms(1,2), of database, folded assms(4)]
  note p = try_call_parse1_fails[OF assms(3)]
  have ins: "recognize (trim command) = InsertOneS c t \<or> recognize (trim command) = InsertS c t \<longrightarrow>
      executeShell env database command = error_response (''Invalid document JSON: '' @ message e)"
    by (auto simp: x p)
  have many: "recognize (trim command) = InsertManyS c t \<longrightarrow>
      executeShell env database command = error_response (''Invalid documents JSON: '' @ message e)"
    by (auto simp: x p)
  have del: "(recognize (trim command) = DeleteOneS c u \<or> recognize (trim command) = DeleteManyS c u)
       \<and> trim u = t \<longrightarrow>
       executeShell env database command = error_response (''Invalid filter JSON: '' @ message e)"
    using assms(3) by (auto simp: x try_call_parse1_fails)
  have agg: "recognize (trim command) = AggregateS c t \<longrightarrow>
       executeShell env database command = error_response (''Invalid pipeline JSON: '' @ message e)"
    by (auto simp: x p)
  have idx: "recognize (trim command) = CreateIndexS c t \<longrightarrow>
       executeShell env database command = error_response (''Invalid keys JSON: '' @ message e)"
    by (auto simp: x p)
  have raw: "recognize (trim command) = RawS t \<longrightarrow>
       executeShell env database command = error_response (''Invalid JSON command: '' @ message e)"
    by (auto simp: x p)
  have upd: "(recognize (trim command) = UpdateOneS c u w \<or> recognize (trim command) = UpdateManyS c u w)
       \<and> (trim u = t \<or> (JSON_parse env (trim u) = Inr v \<and> trim w = t)) \<longrightarrow>
       executeShell env database command = error_response (''Invalid JSON: '' @ message e)"
    using assms(3) by (auto simp: x try_call_parse2_fails)
  have fnd: "recognize (trim command) = FindS c t l sk so \<longrightarrow>
       executeShell env database command = perform env db (FindS c [] l sk so)"
    by (auto simp: x find_cursor_unparsable_filter[OF assms(3)])
  have srt: "recognize (trim command) = FindS c f l sk (Some t) \<longrightarrow>
       executeShell env database command = perform env db (FindS c f l sk None)"
    by (auto simp: x find_cursor_unparsable_sort[OF assms(3)])
  have one: "recognize (trim command) = FindOneS c t \<longrightarrow>
       executeShell env database command = perform env db (FindOneS c [])"
    by (auto simp: x lenient_filter_unparsable[OF assms(3)] lenient_filter_empty)
  have cnt: "recognize (trim command) = CountDocumentsS c t \<or> recognize (trim command) = CountS c t \<longrightarrow>
       executeShell env database command = perform env db (CountDocumentsS c [])"
    by (auto simp: x lenient_filter_unparsable[OF assms(3)] lenient_filter_empty)
  from ins many del agg idx raw upd fnd srt one cnt show ?thesis
    by (intro conjI)
qed

lemma trim_insertOne: "trim ''db.users.insertOne({age: 1})'' = ''db.users.insertOne({age: 1})''"
  by code_simp

lemma recognize_insertOne:
  "recognize ''db.users.insertOne({age: 1})'' = InsertOneS ''users'' ''{age: 1}''"
  by code_simp

lemma trim_find: "trim ''db.users.find({age: 1})'' = ''db.users.find({age: 1})''"
  by code_simp

lemma recognize_find:
  "recognize ''db.users.find({age: 1})'' = FindS ''users'' ''{age: 1}'' None None None"
  by code_simp

lemma sample_parse_fails: "JSON_parse sample_env ''{age: 1}'' = Inl SyntaxError"
  by (simp add: sample_env_def)

lemma sample_getClient: "getClient_throws sample_env = None"
  by (simp add: sample_env_def)

theorem json_argument_errors_witness:
  "executeShell sample_env ''test'' ''db.users.insertOne({age: 1})''
     = error_response ''Invalid document JSON: Unexpected token a in JSON at position 1''
   \<and> executeShell sample_env ''test'' ''db.users.find({age: 1})''
     = perform sample_env ''test'' (FindS ''users'' [] None None None)"
proof -
  have ne: "''db.users.insertOne({age: 1})'' \<noteq> []" "''db.users.find({age: 1})'' \<noteq> []"
    by simp_all
  have db: "''test'' = (if ''test'' \<noteq> [] then ''test'' else ''admin'')"
    by simp
  have a: "recognize (trim ''db.users.insertOne({age: 1})'') = InsertOneS ''users'' ''{age: 1}''"
    by (simp only: trim_insertOne recognize_insertOne)
  have b: "recognize (trim ''db.users.find({age: 1})'') = FindS ''users'' ''{age: 1}'' None None None"
    by (simp only: trim_find recognize_find)
  note i = json_argument_errors[OF ne(1) sample_getClient sample_parse_fails db,
      where c = "''users''"]
  note f = json_argument_errors[OF ne(2) sample_getClient sample_parse_fails db,
      where c = "''users''" and l = None and sk = None and so = None]
  from i a have "executeShell sample_env ''test'' ''db.users.insertOne({age: 1})''
     = error_response (''Invalid document JSON: '' @ message SyntaxError)"
    by blast
  moreover from f b have "executeShell sample_env ''test'' ''db.users.find({age: 1})''
     = perform sample_env ''test'' (FindS ''users'' [] None None None)"
    by blast
  ultimately show ?thesis
    by (simp add: SyntaxError_def)
qed

lemma sample_find_docs:
  "find_docs sample_env db coll flt srt = Inr (map (\<lambda>n. JObj [(''n'', JNum (of_nat n))]) [0 ..< 25])"
  by (simp add: sample_env_def)

text \<open>
  C3, as the claim states it, fails on the find shape. The filter of
  \<open>db.users.find({age: 1})\<close> is no JSON (the key has no quotes) and
  \<open>JSON.parse\<close> throws on it; the \<open>catch\<close> of line 193 drops the error, the
  query runs with the empty filter, and the response is the first 20 documents
  of the collection, not an \<open>{error: ...}\<close> object.
\<close>

theorem find_unparsable_filter_counterexample:
  "recognize (trim ''db.users.find({age: 1})'') = FindS ''users'' ''{age: 1}'' None None None
   \<and> JSON_parse sample_env ''{age: 1}'' = Inl SyntaxError
   \<and> executeShell sample_env ''test'' ''db.users.find({age: 1})''
       = json_response (JArr (map (\<lambda>n. JObj [(''n'', JNum (of_nat n))]) [0 ..< 20]))
   \<and> executeShell sample_env ''test'' ''db.users.find({age: 1})''
       \<noteq> error_response (''Invalid filter JSON: '' @ message SyntaxError)"
proof -
  have b: "recognize (trim ''db.users.find({age: 1})'') = FindS ''users'' ''{age: 1}'' None None None"
    by (simp only: trim_find recognize_find)
  have t: "take 20 (map (\<lambda>n. JObj [(''n'', JNum (of_nat n))]) [0 ..< 25])
      = map (\<lambda>n. JObj [(''n'', JNum (of_nat n))]) [0 ..< 20]"
    by (simp add: take_map)
  have x: "executeShell sample_env ''test'' ''db.users.find({age: 1})''
       = json_response (JArr (map (\<lambda>n. JObj [(''n'', JNum (of_nat n))]) [0 ..< 20]))"
    by (simp add: executeShell_def sample_getClient b toArray_def find_cursor_def
        sample_find_docs t del: upt_Suc)
  show ?thesis
    by (simp only: b sample_parse_fails x)
      (simp add: json_response_def error_response_def)
qed

text \<open>
  A command recognised as the find shape is answered from the cursor of lines
  198-211 (when the driver returns documents). When the pattern has captured
  no \<open>.limit(n)\<close> clause the cursor's limit is 20 and the response holds the
  first 20 documents after the skip, so at most 20; when it has captured one,
  with \<open>n\<close> at most \<open>2^53\<close>, the limit is \<open>n\<close> (for the driver, a limit of 0 is no
  limit).
\<close>

theorem find_default_limit:
  assumes "command \<noteq> []" and "getClient_throws env = None"
    and "recognize (trim command) = FindS collName filterStr limitStr skipStr sortStr"
    and "cur = find_cursor env (if database \<noteq> [] then database else ''admin'')
                 collName filterStr limitStr skipStr sortStr"
    and "cur_skip cur = Some sk"
    and "find_docs env (cur_db cur) (cur_coll cur) (cur_filter cur) (cur_sort cur) = Inr ds"
  shows "(limitStr = None \<longrightarrow>
            cur_limit cur = Some 20
            \<and> executeShell env database command = json_response (JArr (take 20 (drop sk ds)))
            \<and> length (take 20 (drop sk ds)) \<le> 20)
       \<and> (\<forall>n. limitStr = Some n \<and> decimal n \<le> 2 ^ 53 \<longrightarrow>
            cur_limit cur = Some (decimal n)
            \<and> executeShell env database command
                = json_response (JArr (if decimal n = 0 then drop sk ds
                                       else take (decimal n) (drop sk ds))))"
proof -
  have x: "executeShell env database command
      = (case toArray env cur of
           Inl e \<Rightarrow> error_response (message e)
         | Inr docs \<Rightarrow> json_response (JArr docs))"
    using assms(1-4) by (simp add: executeShell_def)
  have l: "cur_limit cur = (case limitStr of None \<Rightarrow> Some 20 | Some t \<Rightarrow> parseInt t)"
    using assms(4) by (simp add: find_cursor_def)
  show ?thesis
    using assms(5,6) by (auto simp: x l toArray_def parseInt_def)
qed

lemma trim_find_all: "trim ''db.users.find({})'' = ''db.users.find({})''"
  by code_simp

lemma recognize_find_all: "recognize ''db.users.find({})'' = FindS ''users'' ''{}'' None None None"
  by code_simp

lemma trim_find_limit: "trim ''db.users.find({}).limit(5)'' = ''db.users.find({}).limit(5)''"
  by code_simp

lemma recognize_find_limit:
  "recognize ''db.users.find({}).limit(5)'' = FindS ''users'' ''{}'' (Some ''5'') None None"
  by code_simp

lemma decimal_5: "decimal ''5'' = 5"
  by code_simp

theorem find_default_limit_witness:
  "executeShell sample_env ''test'' ''db.users.find({})''
     = json_response (JArr (map (\<lambda>n. JObj [(''n'', JNum (of_nat n))]) [0 ..< 20]))
   \<and> executeShell sample_env ''test'' ''db.users.find({}).limit(5)''
     = json_response (JArr (map (\<lambda>n. JObj [(''n'', JNum (of_nat n))]) [0 ..< 5]))"
proof -
  let ?ds = "map (\<lambda>n. JObj [(''n'', JNum (of_nat n))]) [0 ..< 25]"
  have ne: "''db.users.find({})'' \<noteq> []" "''db.users.find({}).limit(5)'' \<noteq> []"
    by simp_all
  have a: "recognize (trim ''db.users.find({})'') = FindS ''users'' ''{}'' None None None"
    by (simp only: trim_find_all recognize_find_all)
  have b: "recognize (trim ''db.users.find({}).limit(5)'') = FindS ''users'' ''{}'' (Some ''5'') None None"
    by (simp only: trim_find_limit recognize_find_limit)
  have s: "cur_skip (find_cursor sample_env db ''users'' ''{}'' l None None) = Some 0" for db l
    by (simp add: find_cursor_def)
  have t: "take 20 ?ds = map (\<lambda>n. JObj [(''n'', JNum (of_nat n))]) [0 ..< 20]"
    "take 5 ?ds = map (\<lambda>n. JObj [(''n'', JNum (of_nat n))]) [0 ..< 5]"
    by (simp_all add: take_map del: upt_Suc)
  from find_default_limit[where database = "''test''", OF ne(1) sample_getClient a refl s
      sample_find_docs]
  have "executeShell sample_env ''test'' ''db.users.find({})'' = json_response (JArr (take 20 ?ds))"
    by simp
  moreover
  from find_default_limit[where database = "''test''", OF ne(2) sample_getClient b refl s
      sample_find_docs]
  have "executeShell sample_env ''test'' ''db.users.find({}).limit(5)''
      = json_response (JArr (take 5 ?ds))"
    by (simp add: decimal_5)
  ultimately show ?thesis
    by (simp only: t)
qed


subsection \<open>The find pattern on command texts\<close>

lemma concat_map_single:
  "g x = ys \<Longrightarrow> \<forall>y\<in>set xs. g y = [] \<Longrightarrow> concat (map g (x # xs)) = ys"
  by (induction xs) auto

lemma concat_map_all_empty: "\<forall>y\<in>set xs. g y = [] \<Longrightarrow> concat (map g xs) = []"
  by (induction xs) auto

lemma takeWhile_run:
  "\<forall>x\<in>set xs. in_cls k x \<Longrightarrow> \<not> in_cls k d \<Longrightarrow> takeWhile (in_cls k) (xs @ d # s) = xs"
  by (induction xs) auto

text \<open>A greedy run of a class, followed by something that cannot start inside the run.\<close>

lemma plus_then:
  assumes "xs \<noteq> []" and "\<forall>x\<in>set xs. in_cls k x" and "\<not> in_cls k d"
    and K: "\<And>c' t. t \<noteq> [] \<Longrightarrow> in_cls k (hd t) \<Longrightarrow> K (c', t) = []"
  shows "concat (map K (ways (Grp g (Plus k)) (c, xs @ d # s))) = K ((g, xs) # c, d # s)"
proof -
  let ?s = "xs @ d # s"
  let ?n = "length xs"
  let ?h = "\<lambda>m. ((g, take (length ?s - length (drop m ?s)) ?s) # c, drop m ?s)"
  have w: "ways (Grp g (Plus k)) (c, ?s) = map ?h (rev [1 ..< Suc ?n])"
    by (simp add: takeWhile_run[OF assms(2,3)] comp_def del: upt_Suc)
  have r: "rev [1 ..< Suc ?n] = ?n # rev [1 ..< ?n]"
    using assms(1) by (cases xs) auto
  have top: "K (?h ?n) = K ((g, xs) # c, d # s)"
    by simp
  have rest: "\<forall>y\<in>set (map ?h (rev [1 ..< ?n])). K y = []"
  proof
    fix y assume "y \<in> set (map ?h (rev [1 ..< ?n]))"
    then obtain m where m: "1 \<le> m" "m < ?n" and y: "y = ?h m" by auto
    have d: "drop m ?s = drop m xs @ d # s" using m by simp
    from m have ne: "drop m xs \<noteq> []" by simp
    then have "hd (drop m xs) \<in> set xs"
      by (metis hd_in_set in_set_dropD)
    with assms(2) have "in_cls k (hd (drop m xs))" by blast
    with ne have "drop m ?s \<noteq> []" "in_cls k (hd (drop m ?s))"
      unfolding d by auto
    from K[OF this] show "K y = []" unfolding y .
  qed
  show ?thesis
    using concat_map_single[of K "?h ?n" _ "map ?h (rev [1 ..< ?n])", OF top rest]
    by (simp only: w r list.map)
qed

lemma Lit_fails_on:
  "t \<noteq> [] \<Longrightarrow> hd t \<noteq> d \<Longrightarrow> ways (Lit (d # l)) (c, t) = []"
  by (cases t) auto

lemma Cat_Lit_fails_on:
  "t \<noteq> [] \<Longrightarrow> hd t \<noteq> d \<Longrightarrow> ways (Cat (Lit (d # l)) r) (c, t) = []"
  by (cases t) auto

lemma word_then_lit:
  assumes "xs \<noteq> []" and "\<forall>x\<in>set xs. in_cls k x" and "\<not> in_cls k d"
  shows "ways (Cat (Grp g (Plus k)) (Cat (Lit (d # l)) r)) (c, xs @ d # l @ s)
         = ways r ((g, xs) # c, s)"
proof -
  have K: "ways (Cat (Lit (d # l)) r) (c', t) = []" if "t \<noteq> []" "in_cls k (hd t)" for c' t
  proof -
    from that(2) assms(3) have "hd t \<noteq> d" by auto
    with that(1) show ?thesis by (rule Cat_Lit_fails_on)
  qed
  have "concat (map (ways (Cat (Lit (d # l)) r)) (ways (Grp g (Plus k)) (c, xs @ d # (l @ s))))
      = ways (Cat (Lit (d # l)) r) ((g, xs) # c, d # (l @ s))"
    by (rule plus_then[where K = "ways (Cat (Lit (d # l)) r)", OF assms K])
  then show ?thesis by simp
qed

lemma run_then_end:
  assumes "xs \<noteq> []" and "\<forall>x\<in>set xs. in_cls k x" and "\<not> in_cls k d"
  shows "ways (Cat (Grp g (Plus k)) (Lit (d # l))) (c, xs @ d # l @ s) = [((g, xs) # c, s)]"
proof -
  have K: "ways (Lit (d # l)) (c', t) = []" if "t \<noteq> []" "in_cls k (hd t)" for c' t
  proof -
    from that(2) assms(3) have "hd t \<noteq> d" by auto
    with that(1) show ?thesis by (rule Lit_fails_on)
  qed
  have "concat (map (ways (Lit (d # l))) (ways (Grp g (Plus k)) (c, xs @ d # (l @ s))))
      = ways (Lit (d # l)) ((g, xs) # c, d # (l @ s))"
    by (rule plus_then[where K = "ways (Lit (d # l))", OF assms K])
  then show ?thesis by simp
qed

text \<open>A lazy run of \<open>.\<close>, followed by a closing parenthesis.\<close>

lemma lazy_then_paren:
  assumes "\<forall>x\<in>set f. in_cls Dot x \<and> x \<noteq> CHR '')''"
  shows "\<exists>X. ways (Cat (Grp g (Lazy Dot)) (Cat (Lit '')'') r)) (c, f @ CHR '')'' # s)
            = ways r ((g, f) # c, s) @ X"
proof -
  let ?s = "f @ CHR '')'' # s"
  let ?n = "length f"
  let ?M = "length (takeWhile (in_cls Dot) ?s)"
  let ?h = "\<lambda>m. ((g, take (length ?s - length (drop m ?s)) ?s) # c, drop m ?s)"
  let ?K = "ways (Cat (Lit '')'') r)"
  have M: "?n < ?M"
    using assms by (induction f) auto
  have w: "ways (Grp g (Lazy Dot)) (c, ?s) = map ?h [0 ..< Suc ?M]"
    by (simp add: comp_def del: upt_Suc)
  from M have u: "[0 ..< Suc ?M] = [0 ..< ?n] @ ?n # [Suc ?n ..< Suc ?M]"
    by (metis less_Suc_eq less_imp_le_nat upt_conv_Cons upt_add_eq_append le_add_diff_inverse zero_le)
  have low: "concat (map ?K (map ?h [0 ..< ?n])) = []"
  proof (rule concat_map_all_empty, rule ballI)
    fix y assume "y \<in> set (map ?h [0 ..< ?n])"
    then obtain m where m: "m < ?n" and y: "y = ?h m" by auto
    have d: "drop m ?s = drop m f @ CHR '')'' # s" using m by simp
    from m have ne: "drop m f \<noteq> []" by simp
    then have "hd (drop m f) \<in> set f"
      by (metis hd_in_set in_set_dropD)
    with assms have "hd (drop m f) \<noteq> CHR '')''" by blast
    with ne have "drop m ?s \<noteq> []" "hd (drop m ?s) \<noteq> CHR '')''"
      unfolding d by auto
    then show "?K y = []"
      unfolding y by (intro Cat_Lit_fails_on)
  qed
  have mid: "?K (?h ?n) = ways r ((g, f) # c, s)"
    by simp
  have "ways (Cat (Grp g (Lazy Dot)) (Cat (Lit '')'') r)) (c, ?s)
      = concat (map ?K (map ?h [0 ..< ?n])) @ ?K (?h ?n) @ concat (map ?K (map ?h [Suc ?n ..< Suc ?M]))"
    by (simp only: ways.simps(9) w u map_append list.map concat_append concat.simps)
  then show ?thesis
    unfolding low mid by auto
qed


lemma findTail_end: "ways findTail (c, []) = [(c, [])]"
  by (simp add: findTail_def)

lemma findTail_limit:
  assumes "ds \<noteq> []" and "\<forall>x\<in>set ds. in_cls Digit x"
  shows "\<exists>X. ways findTail (c, ''.limit('' @ ds @ '')'') = ((3, ds) # c, []) # X"
proof -
  have "\<not> in_cls Digit (CHR '')'')" by simp
  from run_then_end[OF assms this, of 3 "[]" c "[]"]
  have "ways (Cat (Grp 3 (Plus Digit)) (Lit '')'')) (c, ds @ '')'') = [((3, ds) # c, [])]"
    by simp
  then show ?thesis
    by (simp add: findTail_def)
qed

lemma findMatch_text:
  assumes "coll \<noteq> []" and "\<forall>x\<in>set coll. in_cls Word x"
    and "\<forall>x\<in>set f. in_cls Dot x \<and> x \<noteq> CHR '')''"
  shows "\<exists>X. ways findMatch ([], ''db.'' @ coll @ ''.find('' @ f @ '')'' @ s)
           = ways findTail ([(2, f), (1, coll)], s) @ X"
proof -
  have nd: "\<not> in_cls Word (CHR ''.'')" by simp
  have 1: "ways findMatch ([], ''db.'' @ coll @ ''.find('' @ f @ '')'' @ s)
      = ways (Cat (Grp 1 (Plus Word)) (Cat (Lit ''.find('')
          (Cat (Grp 2 (Lazy Dot)) (Cat (Lit '')'') findTail))))
          ([], coll @ CHR ''.'' # ''find('' @ (f @ CHR '')'' # s))"
    by (simp add: findMatch_def)
  have 2: "\<dots> = ways (Cat (Grp 2 (Lazy Dot)) (Cat (Lit '')'') findTail)) ([(1, coll)], f @ CHR '')'' # s)"
    using word_then_lit[OF assms(1,2) nd, of 1 "''find(''" _ "[]" "f @ CHR '')'' # s"]
    by simp
  from lazy_then_paren[OF assms(3), of 2 findTail "[(1, coll)]" s]
  obtain X where "ways (Cat (Grp 2 (Lazy Dot)) (Cat (Lit '')'') findTail)) ([(1, coll)], f @ CHR '')'' # s)
      = ways findTail ([(2, f), (1, coll)], s) @ X"
    by blast
  with 1 2 show ?thesis by auto
qed

lemma match_re_first:
  "ways r ([], s) = (c, []) # X \<Longrightarrow> match_re r s = Some c"
  by (simp add: match_re_def)

lemma findMatch_plain:
  assumes "coll \<noteq> []" and "\<forall>x\<in>set coll. in_cls Word x"
    and "\<forall>x\<in>set f. in_cls Dot x \<and> x \<noteq> CHR '')''"
  shows "match_re findMatch (''db.'' @ coll @ ''.find('' @ f @ '')'') = Some [(2, f), (1, coll)]"
proof -
  from findMatch_text[OF assms, of "[]"] obtain X where
    "ways findMatch ([], ''db.'' @ coll @ ''.find('' @ f @ '')'')
       = ([(2, f), (1, coll)], []) # X"
    by (auto simp: findTail_end)
  then show ?thesis by (rule match_re_first)
qed

lemma findMatch_limit:
  assumes "coll \<noteq> []" and "\<forall>x\<in>set coll. in_cls Word x"
    and "\<forall>x\<in>set f. in_cls Dot x \<and> x \<noteq> CHR '')''"
    and "ds \<noteq> []" and "\<forall>x\<in>set ds. in_cls Digit x"
  shows "match_re findMatch (''db.'' @ coll @ ''.find('' @ f @ '').limit('' @ ds @ '')'')
           = Some [(3, ds), (2, f), (1, coll)]"
proof -
  from findTail_limit[OF assms(4,5), of "[(2, f), (1, coll)]"] obtain Y where
    Y: "ways findTail ([(2, f), (1, coll)], ''.limit('' @ ds @ '')'') = ([(3, ds), (2, f), (1, coll)], []) # Y"
    by blast
  from findMatch_text[OF assms(1-3), of "''.limit('' @ ds @ '')''"] obtain X where
    "ways findMatch ([], ''db.'' @ coll @ ''.find('' @ f @ '')'' @ ''.limit('' @ ds @ '')'')
       = ways findTail ([(2, f), (1, coll)], ''.limit('' @ ds @ '')'') @ X"
    by blast
  then have "ways findMatch ([], ''db.'' @ coll @ ''.find('' @ f @ '').limit('' @ ds @ '')'')
       = ([(3, ds), (2, f), (1, coll)], []) # (Y @ X)"
    unfolding Y by simp
  then show ?thesis by (rule match_re_first)
qed

lemma findMatch_not_exact:
  "match_re findMatch ''db.getCollectionNames()'' = None"
  "match_re findMatch ''db.stats()'' = None"
  by code_simp+

lemma recognize_findMatch:
  "match_re findMatch cmd = Some m \<Longrightarrow>
   recognize cmd = FindS (grp1 m 1) (grp1 m 2) (grp m 3) (grp m 4) (grp m 5)"
  using findMatch_not_exact by (auto simp: recognize_def)

lemma trim_id:
  assumes "\<not> in_cls Space (hd s)" and "\<not> in_cls Space (last s)"
  shows "trim s = s"
proof -
  from assms(1) have a: "dropWhile (in_cls Space) s = s"
    unfolding dropWhile_eq_self_iff by (rule disjI2)
  from assms(2) have "\<not> in_cls Space (hd (rev s))"
    unfolding hd_rev .
  then have b: "dropWhile (in_cls Space) (rev s) = rev s"
    unfolding dropWhile_eq_self_iff by (rule disjI2)
  show ?thesis
    unfolding trim_def a b by simp
qed


text \<open>
  The find shape, from the text of the command to the response. The text
  \<open>db.<name>.find(<filter>)\<close>, with a name of word characters and a filter text
  without \<open>)\<close> and line terminators, is answered with the first 20 matching
  documents; followed by \<open>.limit(<digits>)\<close>, the digits writing a number \<open>n\<close> of
  at most \<open>2^53\<close>, with the first \<open>n\<close> of them, or all of them when \<open>n\<close> is 0.
\<close>

theorem find_text_limit:
  assumes "getClient_throws env = None"
    and "coll \<noteq> []" and "\<forall>x\<in>set coll. in_cls Word x"
    and "\<forall>x\<in>set f. in_cls Dot x \<and> x \<noteq> CHR '')''"
    and "db = (if database \<noteq> [] then database else ''admin'')"
  shows "executeShell env database (''db.'' @ coll @ ''.find('' @ f @ '')'')
           = (case find_docs env db coll (lenient_filter env f) None of
                Inl e \<Rightarrow> error_response (message e)
              | Inr docs \<Rightarrow> json_response (JArr (take 20 docs)))
       \<and> (n \<noteq> [] \<and> (\<forall>x\<in>set n. in_cls Digit x) \<and> decimal n \<le> 2 ^ 53 \<longrightarrow>
            executeShell env database (''db.'' @ coll @ ''.find('' @ f @ '').limit('' @ n @ '')'')
              = (case find_docs env db coll (lenient_filter env f) None of
                   Inl e \<Rightarrow> error_response (message e)
                 | Inr docs \<Rightarrow>
                     json_response (JArr (if decimal n = 0 then docs else take (decimal n) docs))))"
proof -
  have t: "trim (''db.'' @ x @ '')'') = ''db.'' @ x @ '')''" for x
    by (rule trim_id) auto
  have a: "recognize (trim (''db.'' @ coll @ ''.find('' @ f @ '')'')) = FindS coll f None None None"
    using recognize_findMatch[OF findMatch_plain[OF assms(2-4)]] t[of "coll @ ''.find('' @ f"]
    by (simp add: grp_def grp1_def)
  have b: "recognize (trim (''db.'' @ coll @ ''.find('' @ f @ '').limit('' @ n @ '')''))
           = FindS coll f (Some n) None None"
    if "n \<noteq> []" "\<forall>x\<in>set n. in_cls Digit x"
    using recognize_findMatch[OF findMatch_limit[OF assms(2-4) that]]
      t[of "coll @ ''.find('' @ f @ '').limit('' @ n"]
    by (simp add: grp_def grp1_def)
  have 1: "executeShell env database (''db.'' @ coll @ ''.find('' @ f @ '')'')
           = (case find_docs env db coll (lenient_filter env f) None of
                Inl e \<Rightarrow> error_response (message e)
              | Inr docs \<Rightarrow> json_response (JArr (take 20 docs)))"
    using assms(1,5) a
    by (simp add: executeShell_def toArray_def find_cursor_def split: sum.splits)
  have 2: "executeShell env database (''db.'' @ coll @ ''.find('' @ f @ '').limit('' @ n @ '')'')
              = (case find_docs env db coll (lenient_filter env f) None of
                   Inl e \<Rightarrow> error_response (message e)
                 | Inr docs \<Rightarrow>
                     json_response (JArr (if decimal n = 0 then docs else take (decimal n) docs)))"
    if "n \<noteq> []" "\<forall>x\<in>set n. in_cls Digit x" "decimal n \<le> 2 ^ 53"
    using assms(1,5) b[OF that(1,2)] that(3)
    by (simp add: executeShell_def toArray_def find_cursor_def parseInt_def split: sum.splits)
  from 1 2 show ?thesis by blast
qed

theorem find_text_limit_witness:
  "executeShell sample_env ''test'' (''db.'' @ ''users'' @ ''.find('' @ ''{age: 1}'' @ '')'')
     = json_response (JArr (map (\<lambda>n. JObj [(''n'', JNum (of_nat n))]) [0 ..< 20]))
   \<and> executeShell sample_env ''test''
       (''db.'' @ ''users'' @ ''.find('' @ ''{age: 1}'' @ '').limit('' @ ''5'' @ '')'')
     = json_response (JArr (map (\<lambda>n. JObj [(''n'', JNum (of_nat n))]) [0 ..< 5]))"
proof -
  let ?ds = "map (\<lambda>n. JObj [(''n'', JNum (of_nat n))]) [0 ..< 25]"
  have w: "''users'' \<noteq> []" "\<forall>x\<in>set ''users''. in_cls Word x"
    "\<forall>x\<in>set ''{age: 1}''. in_cls Dot x \<and> x \<noteq> CHR '')''"
    "''test'' = (if ''test'' \<noteq> [] then ''test'' else ''admin'')"
    by simp_all
  have d: "''5'' \<noteq> [] \<and> (\<forall>x\<in>set ''5''. in_cls Digit x) \<and> decimal ''5'' \<le> 2 ^ 53"
    by (simp add: decimal_5)
  have t: "take 20 ?ds = map (\<lambda>n. JObj [(''n'', JNum (of_nat n))]) [0 ..< 20]"
    "take 5 ?ds = map (\<lambda>n. JObj [(''n'', JNum (of_nat n))]) [0 ..< 5]"
    by (simp_all add: take_map del: upt_Suc)
  note r = find_text_limit[OF sample_getClient w, where n = "''5''"]
  from r have "executeShell sample_env ''test'' (''db.'' @ ''users'' @ ''.find('' @ ''{age: 1}'' @ '')'')
      = json_response (JArr (take 20 ?ds))"
    by (simp only: sample_find_docs sum.case)
  moreover from r d
  have "executeShell sample_env ''test''
       (''db.'' @ ''users'' @ ''.find('' @ ''{age: 1}'' @ '').limit('' @ ''5'' @ '')'')
      = json_response (JArr (take 5 ?ds))"
    by (simp only: sample_find_docs sum.case decimal_5) simp
  ultimately show ?thesis
    by (simp only: t)
qed

lemma trim_find_sort_limit:
  "trim ''db.users.find().sort({}).limit(5)'' = ''db.users.find().sort({}).limit(5)''"
  by code_simp

lemma recognize_find_sort_limit:
  "recognize ''db.users.find().sort({}).limit(5)''
     = FindS ''users'' [] None None (Some ''{}).limit(5'')"
  by code_simp

text \<open>
  C9. The claim fails on \<open>db.users.find().sort({}).limit(5)\<close>, a find command
  with a \<open>.limit(5)\<close> clause, on a collection of 25 documents: the response
  holds 20 documents, not 5. The pattern of line 184 has the clauses in one
  order only; written after \<open>.sort(...)\<close>, the \<open>.limit(5)\<close> is no limit clause
  for it: the lazy group of \<open>.sort(\<close> runs to the last parenthesis and takes it
  in. No limit is captured, the sort text does not parse and is dropped (line
  203), and line 210 applies the default limit 20.
\<close>

theorem find_limit_after_sort:
  "recognize (trim ''db.users.find().sort({}).limit(5)'')
     = FindS ''users'' [] None None (Some ''{}).limit(5'')
   \<and> executeShell sample_env ''test'' ''db.users.find().sort({}).limit(5)''
     = json_response (JArr (map (\<lambda>n. JObj [(''n'', JNum (of_nat n))]) [0 ..< 20]))"
proof -
  have r: "recognize (trim ''db.users.find().sort({}).limit(5)'')
      = FindS ''users'' [] None None (Some ''{}).limit(5'')"
    by (simp only: trim_find_sort_limit recognize_find_sort_limit)
  have t: "take 20 (map (\<lambda>n. JObj [(''n'', JNum (of_nat n))]) [0 ..< 25])
      = map (\<lambda>n. JObj [(''n'', JNum (of_nat n))]) [0 ..< 20]"
    by (simp add: take_map del: upt_Suc)
  have "executeShell sample_env ''test'' ''db.users.find().sort({}).limit(5)''
     = json_response (JArr (map (\<lambda>n. JObj [(''n'', JNum (of_nat n))]) [0 ..< 20]))"
    by (simp add: executeShell_def sample_getClient r toArray_def find_cursor_def
        sample_find_docs t del: upt_Suc)
  with r show ?thesis by (intro conjI)
qed

text \<open>
  \<open>updateOne\<close> cuts its argument text at the last comma (the first \<open>[\s\S]*\<close> of
  line 342 is greedy): of \<open>({}, {a: 1, b: 2})\<close> the filter text is
  \<open>{}, {a: 1\<close> and the update text is \<open> b: 2}\<close>.
\<close>

theorem recognize_updateOne_commas:
  "recognize ''db.users.updateOne({}, {a: 1, b: 2})''
     = UpdateOneS ''users'' ''{}, {a: 1'' '' b: 2}''"
  by code_simp

end
